theory Spec2Isabelle
  imports Complex_Main
begin

section \<open>Python values used by \<open>tracker/utils/time_utils.py\<close>\<close>

text \<open>
  The module computes with Python floats (IEEE binary64), Python integers,
  \<open>datetime\<close> and \<open>timedelta\<close> objects and two helpers of the host framework
  (\<open>django.utils.timezone\<close>).  This section models those values; the module's own
  four functions follow in the next section.

  A finite float is modelled by the rational number it denotes; the two zeros are
  identified (Python's \<open>==\<close> and \<open><\<close> do not tell them apart).  Every float
  operation is the exact rational operation followed by rounding to the nearest
  binary64 value, ties to even (\<open>fl\<close>).
\<close>

datatype pyfloat = Finite rat | PInf | NInf | NaN

datatype error = TypeError | ValueError | OverflowError

subsection \<open>Rounding to binary64\<close>

text \<open>\<open>ilog2 x\<close> is the binary exponent of a positive rational: \<open>2^e \<le> x < 2^(e+1)\<close>.\<close>

function ilog2_up :: "rat \<Rightarrow> int" where
  "ilog2_up x = (if x < 2 then 0 else 1 + ilog2_up (x / 2))"
  by pat_completeness auto
termination
proof (relation "measure (\<lambda>x. nat \<lfloor>x\<rfloor>)")
  show "wf (measure (\<lambda>x::rat. nat \<lfloor>x\<rfloor>))" by simp
next
  fix x :: rat
  assume "\<not> x < 2"
  then have x2: "2 \<le> x" by simp
  have f2: "(2::rat) \<le> of_int \<lfloor>x\<rfloor>"
    using x2 by (metis le_floor_iff of_int_le_iff of_int_numeral)
  have "x < of_int \<lfloor>x\<rfloor> + 1" by linarith
  with f2 have "x / 2 < of_int \<lfloor>x\<rfloor>" by simp
  then have "\<lfloor>x / 2\<rfloor> < \<lfloor>x\<rfloor>" by (simp add: floor_less_iff)
  moreover have "0 < \<lfloor>x\<rfloor>" using f2 by simp
  ultimately show "(x / 2, x) \<in> measure (\<lambda>x. nat \<lfloor>x\<rfloor>)" by simp
qed

function ilog2_down :: "rat \<Rightarrow> int" where
  "ilog2_down x = (if x \<le> 0 \<or> 1 \<le> x then 0 else ilog2_down (2 * x) - 1)"
  by pat_completeness auto
termination
proof (relation "measure (\<lambda>x. nat \<lceil>1 / x\<rceil>)")
  show "wf (measure (\<lambda>x::rat. nat \<lceil>1 / x\<rceil>))" by simp
next
  fix x :: rat
  assume "\<not> (x \<le> 0 \<or> 1 \<le> x)"
  then have x0: "0 < x" and x1: "x < 1" by simp_all
  define y where "y = 1 / x"
  have y1: "1 < y" using x0 x1 by (simp add: y_def)
  have c2: "2 \<le> \<lceil>y\<rceil>" using y1 by (simp add: le_ceiling_iff)
  then have c2': "(2::rat) \<le> of_int \<lceil>y\<rceil>"
    by (metis of_int_le_iff of_int_numeral)
  have "y \<le> of_int \<lceil>y\<rceil>" by (rule le_of_int_ceiling)
  with c2' have "y / 2 \<le> of_int \<lceil>y\<rceil> - 1" by linarith
  then have "y / 2 \<le> of_int (\<lceil>y\<rceil> - 1)" by simp
  then have "\<lceil>y / 2\<rceil> \<le> \<lceil>y\<rceil> - 1" by (simp only: ceiling_le_iff)
  with c2 have "nat \<lceil>y / 2\<rceil> < nat \<lceil>y\<rceil>" by linarith
  moreover have "1 / (2 * x) = y / 2" by (simp add: y_def)
  ultimately show "(2 * x, x) \<in> measure (\<lambda>x. nat \<lceil>1 / x\<rceil>)"
    by (simp add: y_def mult.commute)
qed

definition ilog2 :: "rat \<Rightarrow> int" where
  "ilog2 x = (if 1 \<le> x then ilog2_up x else ilog2_down x)"

text \<open>Rounding a rational to the nearest integer, ties to the even one.\<close>

definition rhe :: "rat \<Rightarrow> int" where
  "rhe x = (let f = \<lfloor>x\<rfloor>; r = x - of_int f
            in if r < 1 / 2 then f
               else if 1 / 2 < r then f + 1
               else if even f then f else f + 1)"

text \<open>
  \<open>fl_fin x\<close> is the binary64 value nearest to \<open>x\<close> (53-bit significand, least
  exponent -1022, so that subnormals share the spacing \<open>2^-1074\<close>), computed as if
  the exponent range had no upper end; \<open>fl\<close> adds the overflow to infinity.
\<close>

definition fl_fin :: "rat \<Rightarrow> rat" where
  "fl_fin x = (if x = 0 then 0
               else let e = max (ilog2 \<bar>x\<bar>) (- 1022);
                        u = 2 powi (e - 52)
                    in sgn x * of_int (rhe (\<bar>x\<bar> / u)) * u)"

definition max_double :: rat where
  "max_double = (2 ^ 53 - 1) * 2 ^ 971"

definition fl :: "rat \<Rightarrow> pyfloat" where
  "fl x = (let r = fl_fin x
           in if max_double < r then PInf
              else if r < - max_double then NInf
              else Finite r)"

subsection \<open>Float operations of the module\<close>

text \<open>
  \<open>x / c\<close> and \<open>x * c\<close> for a float \<open>x\<close> and a positive finite constant \<open>c\<close>
  (the module divides by \<open>3600.0\<close> and \<open>60.0\<close> and multiplies by \<open>60\<close>), and
  \<open>x - c\<close> for a finite constant \<open>c\<close> (the module subtracts \<open>9\<close>).  An integer
  constant is converted to the float of the same value first, which is exact for
  these constants.
\<close>

fun float_div :: "pyfloat \<Rightarrow> rat \<Rightarrow> pyfloat" where
  "float_div (Finite r) c = fl (r / c)"
| "float_div PInf c = PInf"
| "float_div NInf c = NInf"
| "float_div NaN c = NaN"

fun float_mul :: "pyfloat \<Rightarrow> rat \<Rightarrow> pyfloat" where
  "float_mul (Finite r) c = fl (r * c)"
| "float_mul PInf c = PInf"
| "float_mul NInf c = NInf"
| "float_mul NaN c = NaN"

fun float_sub :: "pyfloat \<Rightarrow> rat \<Rightarrow> pyfloat" where
  "float_sub (Finite r) c = fl (r - c)"
| "float_sub PInf c = PInf"
| "float_sub NInf c = NInf"
| "float_sub NaN c = NaN"

text \<open>Comparison of a float with an integer: Python compares the exact values.\<close>

fun float_ge :: "pyfloat \<Rightarrow> int \<Rightarrow> bool" where
  "float_ge (Finite r) k = (of_int k \<le> r)"
| "float_ge PInf k = True"
| "float_ge NInf k = False"
| "float_ge NaN k = False"

fun float_lt :: "pyfloat \<Rightarrow> int \<Rightarrow> bool" where
  "float_lt (Finite r) k = (r < of_int k)"
| "float_lt PInf k = False"
| "float_lt NInf k = True"
| "float_lt NaN k = False"

text \<open>
  \<open>round(x, ndigits)\<close> on a float: the exact value of \<open>x\<close> is rounded to
  \<open>ndigits\<close> decimals, ties to even, and the decimal result is converted back to the
  nearest float.  An infinity or a NaN is returned as it is.
\<close>

fun py_round :: "pyfloat \<Rightarrow> nat \<Rightarrow> pyfloat" where
  "py_round (Finite r) ndigits = fl (of_int (rhe (r * 10 ^ ndigits)) / 10 ^ ndigits)"
| "py_round PInf ndigits = PInf"
| "py_round NInf ndigits = NInf"
| "py_round NaN ndigits = NaN"

text \<open>\<open>int(x)\<close> truncates towards zero and raises on an infinity or a NaN.\<close>

definition truncate_rat :: "rat \<Rightarrow> int" where
  "truncate_rat r = (if 0 \<le> r then \<lfloor>r\<rfloor> else \<lceil>r\<rceil>)"

fun py_int :: "pyfloat \<Rightarrow> error + int" where
  "py_int (Finite r) = Inr (truncate_rat r)"
| "py_int PInf = Inl OverflowError"
| "py_int NInf = Inl OverflowError"
| "py_int NaN = Inl ValueError"

text \<open>
  The conversion of an integer to a float, as the mixed division
  \<open>estimated_minutes / 60.0\<close> does it: correctly rounded, \<open>OverflowError\<close> when the
  integer is too large for a float.
\<close>

definition float_of_int :: "int \<Rightarrow> error + pyfloat" where
  "float_of_int k = (case fl (of_int k) of Finite r \<Rightarrow> Inr (Finite r) | _ \<Rightarrow> Inl OverflowError)"

text \<open>\<open>str(n)\<close> for an integer, as an f-string renders it.\<close>

definition digit_char :: "nat \<Rightarrow> char" where
  "digit_char d = ''0123456789'' ! d"

function str_nat :: "nat \<Rightarrow> string" where
  "str_nat n = (if n < 10 then [digit_char n] else str_nat (n div 10) @ [digit_char (n mod 10)])"
  by pat_completeness auto
termination
  by (relation "measure id") auto

definition str_int :: "int \<Rightarrow> string" where
  "str_int i = (if i < 0 then CHR ''-'' # str_nat (nat (- i)) else str_nat (nat i))"

subsection \<open>Datetimes and timedeltas\<close>

text \<open>
  A \<open>timedelta\<close> is its length in microseconds.  A \<open>datetime\<close> is the reading of
  its date and time fields, counted in microseconds from 0001-01-01T00:00:00, and its
  \<open>tzinfo\<close> attribute (\<open>None\<close> for a naive datetime); values of the type \<open>'z\<close> are
  the tzinfo objects, compared by identity.  Python's datetimes range over the years 1
  to 9999, that is over \<open>0 \<le> ticks < MAXTICKS\<close>.  The \<open>fold\<close> attribute is left
  out: the offset of a tzinfo object is taken as a function of the reading alone.
\<close>

type_synonym timedelta = int

record 'z datetime =
  ticks :: int
  tzinfo :: "'z option"

definition us_per_hour :: int where
  "us_per_hour = 3600000000"

definition us_per_day :: int where
  "us_per_day = 86400000000"

definition MAXTICKS :: int where
  "MAXTICKS = 3652059 * us_per_day"

definition valid_datetime :: "'z datetime \<Rightarrow> bool" where
  "valid_datetime d = (0 \<le> ticks d \<and> ticks d < MAXTICKS)"

text \<open>
  \<open>timedelta.total_seconds()\<close>: the true division of the microsecond count by
  \<open>10^6\<close>, correctly rounded.  A timedelta holds fewer than \<open>10^9\<close> days, so the
  quotient is far from the overflow threshold.
\<close>

definition total_seconds :: "timedelta \<Rightarrow> pyfloat" where
  "total_seconds td = fl (of_int td / 10 ^ 6)"

text \<open>
  \<open>a - b\<close> on datetimes.  With the same tzinfo object (or both naive) the readings
  are subtracted and no offset is consulted; with different tzinfo objects both are
  taken to UTC first; a naive and an aware datetime do not mix.  The first argument
  gives \<open>tzinfo.utcoffset\<close>, in microseconds, for a tzinfo object and a reading.
\<close>

definition dt_sub :: "('z \<Rightarrow> int \<Rightarrow> int) \<Rightarrow> 'z datetime \<Rightarrow> 'z datetime \<Rightarrow> error + timedelta" where
  "dt_sub off a b =
     (let base = ticks a - ticks b
      in if tzinfo a = tzinfo b then Inr base
         else (case (tzinfo a, tzinfo b) of
                 (Some za, Some zb) \<Rightarrow> Inr (base + off zb (ticks b) - off za (ticks a))
               | _ \<Rightarrow> Inl TypeError))"

text \<open>
  \<open>d + td\<close>: the reading moves by \<open>td\<close>, the tzinfo object is kept, and a result
  outside the years 1 to 9999 raises \<open>OverflowError\<close>.
\<close>

definition dt_add :: "'z datetime \<Rightarrow> timedelta \<Rightarrow> error + 'z datetime" where
  "dt_add d td =
     (let t = ticks d + td
      in if 0 \<le> t \<and> t < MAXTICKS then Inr (d\<lparr>ticks := t\<rparr>) else Inl OverflowError)"

text \<open>C's \<open>round\<close>: to the nearest integer, ties away from zero.\<close>

definition c_round :: "rat \<Rightarrow> int" where
  "c_round x = (if 0 \<le> x then \<lfloor>x + 1 / 2\<rfloor> else - \<lfloor>- x + 1 / 2\<rfloor>)"

text \<open>
  \<open>timedelta(hours=h)\<close> for a float \<open>h\<close>, as the constructor computes it.
  \<open>hours_to_us\<close> is the microsecond count it arrives at for a finite \<open>h\<close>: the whole
  hours are converted exactly; the fractional hours are multiplied by \<open>3.6e9\<close> in
  float arithmetic, the whole microseconds of that product are added, and what is left
  is rounded to a whole microsecond, ties to the even total (\<open>round_leftover\<close>).  More than \<open>999999999\<close>
  days raise \<open>OverflowError\<close>, and so does an infinite \<open>h\<close>; a NaN raises
  \<open>ValueError\<close>.
\<close>

definition round_leftover :: "int \<Rightarrow> rat \<Rightarrow> int" where
  "round_leftover x leftover_us =
     (let whole_us = c_round leftover_us
      in if \<bar>of_int whole_us - leftover_us\<bar> = 1 / 2
         then let x_is_odd = x mod 2
              in x + (2 * c_round ((leftover_us + of_int x_is_odd) * (1 / 2)) - x_is_odd)
         else x + whole_us)"

definition hours_to_us :: "rat \<Rightarrow> int" where
  "hours_to_us r =
     (let intpart = truncate_rat r;
          fracpart = r - of_int intpart;
          dnum = fl_fin (of_int us_per_hour * fracpart)
      in round_leftover (intpart * us_per_hour + truncate_rat dnum)
           (dnum - of_int (truncate_rat dnum)))"

definition timedelta_hours :: "pyfloat \<Rightarrow> error + timedelta" where
  "timedelta_hours h =
     (case h of
        NaN \<Rightarrow> Inl ValueError
      | PInf \<Rightarrow> Inl OverflowError
      | NInf \<Rightarrow> Inl OverflowError
      | Finite r \<Rightarrow>
          let us = hours_to_us r
          in if \<bar>us div us_per_day\<bar> \<le> 999999999 then Inr us else Inl OverflowError)"

subsection \<open>The host framework's timezone helpers\<close>

text \<open>
  What the module reads from its surroundings: the clock (\<open>timezone.now()\<close>), the
  current time zone that \<open>timezone.make_aware\<close> attaches, and the offsets of the
  tzinfo objects.  \<open>is_naive\<close> asks whether \<open>utcoffset()\<close> is \<open>None\<close>, which for
  the tzinfo objects considered here means that there is no tzinfo.  \<open>make_aware\<close>
  without a zone argument is \<open>value.replace(tzinfo=get_current_timezone())\<close> and
  raises \<open>ValueError\<close> on a datetime that is aware already.
\<close>

record 'z django =
  timezone_now :: "'z datetime"
  get_current_timezone :: 'z
  utcoffset :: "'z \<Rightarrow> int \<Rightarrow> int"

definition is_naive :: "'z datetime \<Rightarrow> bool" where
  "is_naive d = (tzinfo d = None)"

definition make_aware :: "'z django \<Rightarrow> 'z datetime \<Rightarrow> error + 'z datetime" where
  "make_aware env d =
     (if is_naive d then Inr (d\<lparr>tzinfo := Some (get_current_timezone env)\<rparr>)
      else Inl ValueError)"

section \<open>The module\<close>

definition OVERDUE_THRESHOLD_HOURS :: int where
  "OVERDUE_THRESHOLD_HOURS = 9"

definition is_order_overdue ::
  "'z django \<Rightarrow> 'z datetime option \<Rightarrow> 'z datetime option \<Rightarrow> error + bool" where
  "is_order_overdue env started_at now =
     (case started_at of
        None \<Rightarrow> Inr False
      | Some s \<Rightarrow>
          let n = (case now of None \<Rightarrow> timezone_now env | Some n \<Rightarrow> n)
          in case (if is_naive s then make_aware env s else Inr s) of
               Inl e \<Rightarrow> Inl e
             | Inr s' \<Rightarrow>
                 (case (if is_naive n then make_aware env n else Inr n) of
                    Inl e \<Rightarrow> Inl e
                  | Inr n' \<Rightarrow>
                      (case dt_sub (utcoffset env) n' s' of
                         Inl e \<Rightarrow> Inl e
                       | Inr td \<Rightarrow>
                           let elapsed_hours = float_div (total_seconds td) 3600
                           in Inr (float_ge elapsed_hours OVERDUE_THRESHOLD_HOURS))))"

definition format_hours :: "pyfloat \<Rightarrow> error + string" where
  "format_hours hours =
     (if float_lt hours 0 then Inr ''0h''
      else case py_int (float_mul hours 60) of
             Inl e \<Rightarrow> Inl e
           | Inr total_minutes \<Rightarrow>
               let hours_part = total_minutes div 60;
                   minutes_part = total_minutes mod 60
               in Inr (if hours_part = 0 \<and> minutes_part = 0 then ''0h''
                       else if hours_part = 0 then str_int minutes_part @ ''m''
                       else if minutes_part = 0 then str_int hours_part @ ''h''
                       else str_int hours_part @ ''h '' @ str_int minutes_part @ ''m''))"

record 'z completion_estimate =
  estimated_end :: "'z datetime"
  estimated_hours :: pyfloat
  formatted :: string

definition estimate_completion_time ::
  "'z datetime option \<Rightarrow> int option \<Rightarrow> error + 'z completion_estimate option" where
  "estimate_completion_time started_at estimated_minutes =
     (case started_at of
        None \<Rightarrow> Inr None
      | Some s \<Rightarrow>
          let minutes =
                (case estimated_minutes of None \<Rightarrow> OVERDUE_THRESHOLD_HOURS * 60 | Some m \<Rightarrow> m)
          in case float_of_int minutes of
               Inl e \<Rightarrow> Inl e
             | Inr m \<Rightarrow>
                 let hours = float_div m 60
                 in (case timedelta_hours hours of
                       Inl e \<Rightarrow> Inl e
                     | Inr td \<Rightarrow>
                         (case dt_add s td of
                            Inl e \<Rightarrow> Inl e
                          | Inr end_time \<Rightarrow>
                              (case format_hours hours of
                                 Inl e \<Rightarrow> Inl e
                               | Inr f \<Rightarrow>
                                   Inr (Some \<lparr>estimated_end = end_time,
                                              estimated_hours = hours,
                                              formatted = f\<rparr>)))))"

text \<open>
  The order is an object of the surrounding application; the module reads its
  \<open>started_at\<close> attribute.  The record is extensible: whatever else the order holds is
  its \<open>more\<close> part.  \<open>get_order_overdue_status\<close> is given the order and returns it
  together with its result, so that what the call does to the order is part of the
  model.
\<close>

record overdue_status =
  is_overdue :: bool
  hours_elapsed :: pyfloat
  overdue_by_hours :: pyfloat

record 'z order =
  started_at :: "'z datetime option"

definition get_order_overdue_status ::
  "'z django \<Rightarrow> ('z, 'm) order_scheme \<Rightarrow> ('z, 'm) order_scheme \<times> (error + overdue_status)" where
  "get_order_overdue_status env order =
     (let result = \<lparr>is_overdue = False, hours_elapsed = Finite 0, overdue_by_hours = Finite 0\<rparr>
      in case started_at order of
           None \<Rightarrow> (order, Inr result)
         | Some s \<Rightarrow>
             let n = timezone_now env
             in case (if is_naive s then make_aware env s else Inr s) of
                  Inl e \<Rightarrow> (order, Inl e)
                | Inr s' \<Rightarrow>
                    (case (if is_naive n then make_aware env n else Inr n) of
                       Inl e \<Rightarrow> (order, Inl e)
                     | Inr n' \<Rightarrow>
                         (case dt_sub (utcoffset env) n' s' of
                            Inl e \<Rightarrow> (order, Inl e)
                          | Inr td \<Rightarrow>
                              let elapsed_hours = float_div (total_seconds td) 3600;
                                  result1 = result\<lparr>hours_elapsed := py_round elapsed_hours 2\<rparr>;
                                  result2 =
                                    (if float_ge elapsed_hours OVERDUE_THRESHOLD_HOURS
                                     then result1\<lparr>is_overdue := True,
                                                 overdue_by_hours :=
                                                   py_round (float_sub elapsed_hours
                                                     (of_int OVERDUE_THRESHOLD_HOURS)) 2\<rparr>
                                     else result1)
                              in (order, Inr result2))))"

section \<open>Notions used in the statements\<close>

text \<open>
  The datetime the two overdue functions compute with: a naive one gets the current
  time zone attached, an aware one is taken as it is.
\<close>

definition aware :: "'z django \<Rightarrow> 'z datetime \<Rightarrow> 'z datetime" where
  "aware env d = (if tzinfo d = None then d\<lparr>tzinfo := Some (get_current_timezone env)\<rparr> else d)"

text \<open>\<open>a <= b\<close> on datetimes, which Python decides like the sign of \<open>a - b\<close>.\<close>

definition dt_le :: "('z \<Rightarrow> int \<Rightarrow> int) \<Rightarrow> 'z datetime \<Rightarrow> 'z datetime \<Rightarrow> error + bool" where
  "dt_le off a b = (case dt_sub off a b of Inl e \<Rightarrow> Inl e | Inr td \<Rightarrow> Inr (td \<le> 0))"

text \<open>
  The UTC offset of a datetime in a given environment, and the condition that two
  datetimes which carry the same tzinfo object also have the same offset (so that the
  difference of their readings is the difference of their instants).
\<close>

definition utc_offset_of :: "'z django \<Rightarrow> 'z datetime \<Rightarrow> int" where
  "utc_offset_of env d = (case tzinfo d of None \<Rightarrow> 0 | Some z \<Rightarrow> utcoffset env z (ticks d))"

definition offsets_agree :: "'z django \<Rightarrow> 'z datetime \<Rightarrow> 'z datetime \<Rightarrow> bool" where
  "offsets_agree env a b = (tzinfo a = tzinfo b \<longrightarrow> utc_offset_of env a = utc_offset_of env b)"

text \<open>The exponent of the spacing of the binary64 values around \<open>x\<close>.\<close>

definition ulp_exp :: "rat \<Rightarrow> int" where
  "ulp_exp x = max (ilog2 \<bar>x\<bar>) (- 1022) - 52"

text \<open>
  \<open>a <= b\<close> on floats: false when either side is a NaN.  It is used to state that
  the float operations of the module are monotone.
\<close>

fun float_le :: "pyfloat \<Rightarrow> pyfloat \<Rightarrow> bool" where
  "float_le NaN y = False"
| "float_le x NaN = False"
| "float_le NInf y = True"
| "float_le x PInf = True"
| "float_le (Finite a) (Finite b) = (a \<le> b)"
| "float_le PInf y = False"
| "float_le x NInf = False"

text \<open>
  The expression \<open>(now - started_at).total_seconds() / 3600.0\<close> that both overdue
  functions bind to \<open>elapsed_hours\<close>, as a function of the timedelta.
\<close>

definition elapsed_hours :: "timedelta \<Rightarrow> pyfloat" where
  "elapsed_hours td = float_div (total_seconds td) 3600"

text \<open>
  The rendering of an hours part \<open>X\<close> and a minutes part \<open>Y\<close> in the words of the
  specification: \<open>"Xh Ym"\<close>, \<open>"Xh"\<close>, \<open>"Ym"\<close> or \<open>"0h"\<close>, depending on which
  parts are zero.
\<close>

definition render_hm :: "int \<Rightarrow> int \<Rightarrow> string" where
  "render_hm X Y =
     (if X \<noteq> 0 \<and> Y \<noteq> 0 then str_int X @ ''h '' @ str_int Y @ ''m''
      else if X \<noteq> 0 then str_int X @ ''h''
      else if Y \<noteq> 0 then str_int Y @ ''m''
      else ''0h'')"

subsection \<open>Concrete inputs\<close>

text \<open>
  Two time zones with fixed offsets (UTC and UTC+9), datetimes on 2024-01-01 (day
  738885 after 0001-01-01) at a whole hour, an environment whose clock reads
  2024-01-01T12:00 UTC and whose current time zone is UTC, an order that started a given
  number of microseconds before that clock, and the datetime 9999-12-31T20:00.
\<close>

definition UTC :: nat where
  "UTC = 0"

definition TOKYO :: nat where
  "TOKYO = 1"

definition zone_offset :: "nat \<Rightarrow> int \<Rightarrow> int" where
  "zone_offset z w = (if z = TOKYO then 9 * us_per_hour else 0)"

definition at_2024 :: "int \<Rightarrow> nat option \<Rightarrow> nat datetime" where
  "at_2024 h z = \<lparr>ticks = 738885 * us_per_day + h * us_per_hour, tzinfo = z\<rparr>"

definition example_env :: "nat django" where
  "example_env = \<lparr>timezone_now = at_2024 12 (Some UTC),
                   get_current_timezone = UTC,
                   utcoffset = zone_offset\<rparr>"

definition order_started :: "int \<Rightarrow> nat order" where
  "order_started us_ago =
     \<lparr>started_at = Some \<lparr>ticks = ticks (timezone_now example_env) - us_ago, tzinfo = Some UTC\<rparr>\<rparr>"

definition last_evening :: "nat datetime" where
  "last_evening = \<lparr>ticks = MAXTICKS - 4 * us_per_hour, tzinfo = None\<rparr>"

text \<open>
  A zone with a change of offset: New York, five hours behind UTC until its clocks go
  from 02:00 to 03:00 on 2024-03-10 and four hours behind from then on (a reading in the
  skipped hour has the earlier offset).  \<open>march_2024 d h m\<close> is the reading
  2024-03-d at h:m, and \<open>dst_env\<close> is the example environment with that zone.
\<close>

definition NEW_YORK :: nat where
  "NEW_YORK = 2"

definition march_2024 :: "int \<Rightarrow> int \<Rightarrow> int \<Rightarrow> nat option \<Rightarrow> nat datetime" where
  "march_2024 d h m z =
     \<lparr>ticks = (738944 + d) * us_per_day + h * us_per_hour + m * 60000000, tzinfo = z\<rparr>"

definition dst_offset :: "nat \<Rightarrow> int \<Rightarrow> int" where
  "dst_offset z w =
     (if z = NEW_YORK
      then (if w < ticks (march_2024 10 3 0 None) then - 5 * us_per_hour else - 4 * us_per_hour)
      else zone_offset z w)"

definition dst_env :: "nat django" where
  "dst_env = example_env\<lparr>utcoffset := dst_offset\<rparr>"

section \<open>Properties of the rounding\<close>

declare ilog2_up.simps [simp del] ilog2_down.simps [simp del] str_nat.simps [simp del]

lemma floor_rat_numeral [simp]:
  "\<lfloor>numeral a / numeral b :: rat\<rfloor> = numeral a div numeral b"
  using floor_divide_of_int_eq [of "numeral a" "numeral b", where ?'a = rat] by simp

lemma floor_rat_neg_numeral [simp]:
  "\<lfloor>- (numeral a / numeral b) :: rat\<rfloor> = - numeral a div numeral b"
  using floor_divide_of_int_eq [of "- numeral a" "numeral b", where ?'a = rat] by simp

lemmas fl_eval = fl_fin_def ilog2_def rhe_def Let_def ilog2_up.simps ilog2_down.simps

lemma ilog2_up_bounds:
  "1 \<le> x \<Longrightarrow> 2 powi (ilog2_up x) \<le> x \<and> x < 2 powi (ilog2_up x + 1)"
proof (induction x rule: ilog2_up.induct)
  case (1 x)
  show ?case
  proof (cases "x < 2")
    case True
    then have "ilog2_up x = 0" by (simp add: ilog2_up.simps)
    with True "1.prems" show ?thesis by simp
  next
    case False
    then have h: "1 \<le> x / 2" by simp
    have eq: "ilog2_up x = 1 + ilog2_up (x / 2)"
      using False by (subst ilog2_up.simps) simp
    from "1.IH" [OF False h]
    have "2 powi (ilog2_up (x / 2)) \<le> x / 2" and "x / 2 < 2 powi (ilog2_up (x / 2) + 1)"
      by simp_all
    moreover have "(2::rat) powi (ilog2_up x) = 2 * 2 powi (ilog2_up (x / 2))"
      by (simp add: eq power_int_add)
    moreover have "(2::rat) powi (ilog2_up x + 1) = 2 * 2 powi (ilog2_up (x / 2) + 1)"
      by (simp add: eq power_int_add)
    ultimately show ?thesis by simp
  qed
qed

lemma ilog2_down_bounds:
  "0 < x \<Longrightarrow> x < 1 \<Longrightarrow> 2 powi (ilog2_down x) \<le> x \<and> x < 2 powi (ilog2_down x + 1)"
proof (induction x rule: ilog2_down.induct)
  case (1 x)
  from "1.prems" have c: "\<not> (x \<le> 0 \<or> 1 \<le> x)" by simp
  have eq: "ilog2_down x = ilog2_down (2 * x) - 1"
    using c by (subst ilog2_down.simps) simp
  show ?case
  proof (cases "2 * x < 1")
    case True
    from "1.IH" [OF c _ True] "1.prems"
    have "2 powi (ilog2_down (2 * x)) \<le> 2 * x" and "2 * x < 2 powi (ilog2_down (2 * x) + 1)"
      by simp_all
    moreover have "(2::rat) powi (ilog2_down x) = 2 powi (ilog2_down (2 * x)) / 2"
      by (simp add: eq power_int_diff)
    moreover have "(2::rat) powi (ilog2_down x + 1) = 2 powi (ilog2_down (2 * x) + 1) / 2"
      by (simp add: eq power_int_add power_int_diff)
    ultimately show ?thesis by simp
  next
    case False
    then have "ilog2_down (2 * x) = 0" by (simp add: ilog2_down.simps)
    with False "1.prems" show ?thesis by (simp add: eq power_int_minus)
  qed
qed

lemma ilog2_bounds:
  assumes "0 < x"
  shows "2 powi (ilog2 x) \<le> x" and "x < 2 powi (ilog2 x + 1)"
  using assms ilog2_up_bounds [of x] ilog2_down_bounds [of x]
  by (auto simp: ilog2_def not_le)

lemma ilog2_mono:
  assumes "0 < x" and "x \<le> y"
  shows "ilog2 x \<le> ilog2 y"
proof (rule ccontr)
  assume "\<not> ilog2 x \<le> ilog2 y"
  then have "ilog2 y + 1 \<le> ilog2 x" by simp
  then have "(2::rat) powi (ilog2 y + 1) \<le> 2 powi (ilog2 x)"
    by (rule power_int_increasing) simp
  also have "\<dots> \<le> x" using assms(1) by (rule ilog2_bounds)
  finally have "2 powi (ilog2 y + 1) \<le> y" using assms(2) by simp
  moreover have "y < 2 powi (ilog2 y + 1)" using assms by (intro ilog2_bounds) simp
  ultimately show False by simp
qed

lemma rhe_bounds: "of_int (rhe x) - 1 / 2 \<le> x \<and> x \<le> of_int (rhe x) + 1 / 2"
  by (auto simp: rhe_def Let_def; linarith)

lemma rhe_of_int [simp]: "rhe (of_int n) = n"
  by (simp add: rhe_def)

lemma rhe_mono:
  assumes "x \<le> y"
  shows "rhe x \<le> rhe y"
proof (rule ccontr)
  assume "\<not> rhe x \<le> rhe y"
  then have "rhe y + 1 \<le> rhe x" by simp
  then have "(of_int (rhe y) :: rat) + 1 \<le> of_int (rhe x)"
    by (metis of_int_1 of_int_add of_int_le_iff)
  with rhe_bounds [of x] rhe_bounds [of y] assms have "x = y" by linarith
  with \<open>\<not> rhe x \<le> rhe y\<close> show False by simp
qed

lemma fl_fin_pos:
  "0 < x \<Longrightarrow> fl_fin x = of_int (rhe (x / 2 powi ulp_exp x)) * 2 powi ulp_exp x"
  by (simp add: fl_fin_def ulp_exp_def Let_def)

lemma fl_fin_minus: "fl_fin (- x) = - fl_fin x"
  by (simp add: fl_fin_def Let_def sgn_minus)

lemma fl_fin_nonneg: "0 \<le> x \<Longrightarrow> 0 \<le> fl_fin x"
proof -
  assume "0 \<le> x"
  show ?thesis
  proof (cases "x = 0")
    case True then show ?thesis by (simp add: fl_fin_def)
  next
    case False
    with \<open>0 \<le> x\<close> have x: "0 < x" by simp
    have "rhe 0 \<le> rhe (x / 2 powi ulp_exp x)"
      by (rule rhe_mono) (use x in simp)
    then have "0 \<le> rhe (x / 2 powi ulp_exp x)" using rhe_of_int [of 0] by simp
    then show ?thesis by (simp add: fl_fin_pos [OF x])
  qed
qed

lemma fl_fin_mono_pos:
  assumes x: "0 < x" and xy: "x \<le> y"
  shows "fl_fin x \<le> fl_fin y"
proof -
  have y: "0 < y" using x xy by simp
  have le: "ulp_exp x \<le> ulp_exp y"
    using ilog2_mono [of x y] x xy y by (simp add: ulp_exp_def)
  show ?thesis
  proof (cases "ulp_exp x = ulp_exp y")
    case True
    have "x / 2 powi ulp_exp y \<le> y / 2 powi ulp_exp y"
      using xy by (simp add: divide_right_mono)
    then have "rhe (x / 2 powi ulp_exp y) \<le> rhe (y / 2 powi ulp_exp y)"
      by (rule rhe_mono)
    then show ?thesis
      by (simp add: fl_fin_pos x y True)
  next
    case False
    with le have lt: "ulp_exp x < ulp_exp y" by simp
    then have ey: "ulp_exp y = ilog2 y - 52" and ex: "ilog2 x - 52 \<le> ulp_exp x"
      using y x by (auto simp: ulp_exp_def)
    have "x < 2 powi (ilog2 x + 1)" using x by (rule ilog2_bounds)
    also have "\<dots> \<le> 2 powi (ulp_exp x + 53)"
      by (rule power_int_increasing) (use ex in simp_all)
    also have "\<dots> = 2 ^ 53 * 2 powi ulp_exp x"
      by (simp add: power_int_add)
    finally have "x / 2 powi ulp_exp x \<le> of_int (2 ^ 53)"
      by (simp add: divide_le_eq)
    then have "rhe (x / 2 powi ulp_exp x) \<le> rhe (of_int (2 ^ 53))"
      by (rule rhe_mono)
    then have "(of_int (rhe (x / 2 powi ulp_exp x)) :: rat) \<le> 2 ^ 53"
      unfolding rhe_of_int by (metis of_int_le_iff of_int_numeral of_int_power)
    then have "fl_fin x \<le> 2 ^ 53 * 2 powi ulp_exp x"
      by (simp add: fl_fin_pos x)
    also have "\<dots> = 2 powi (ulp_exp x + 53)"
      by (simp add: power_int_add)
    also have "\<dots> \<le> 2 powi (ulp_exp y + 52)"
      by (rule power_int_increasing) (use lt in simp_all)
    also have "\<dots> = 2 ^ 52 * 2 powi ulp_exp y"
      by (simp add: power_int_add)
    also have "\<dots> \<le> fl_fin y"
    proof -
      have "2 powi (ulp_exp y + 52) \<le> y"
        using ilog2_bounds(1) [OF y] by (simp add: ey)
      then have "of_int (2 ^ 52) \<le> y / 2 powi ulp_exp y"
        by (simp add: le_divide_eq power_int_add mult.commute)
      then have "rhe (of_int (2 ^ 52)) \<le> rhe (y / 2 powi ulp_exp y)"
        by (rule rhe_mono)
      then have "(2 ^ 52 :: rat) \<le> of_int (rhe (y / 2 powi ulp_exp y))"
        unfolding rhe_of_int by (metis of_int_le_iff of_int_numeral of_int_power)
      then show ?thesis by (simp add: fl_fin_pos y)
    qed
    finally show ?thesis .
  qed
qed

lemma fl_fin_mono:
  assumes "x \<le> y"
  shows "fl_fin x \<le> fl_fin y"
proof -
  consider "0 < x" | "x \<le> 0" "0 \<le> y" | "y < 0" by linarith
  then show ?thesis
  proof cases
    case 1
    then show ?thesis using assms by (rule fl_fin_mono_pos)
  next
    case 2
    have "fl_fin x \<le> 0" using fl_fin_nonneg [of "- x"] 2(1) by (simp add: fl_fin_minus)
    also have "0 \<le> fl_fin y" using 2(2) by (rule fl_fin_nonneg)
    finally show ?thesis .
  next
    case 3
    then have "fl_fin (- y) \<le> fl_fin (- x)"
      using assms by (intro fl_fin_mono_pos) simp_all
    then show ?thesis by (simp add: fl_fin_minus)
  qed
qed

subsection \<open>Overflow cases and the nine-hour threshold\<close>

lemma max_double_pos: "0 < max_double"
  by (simp add: max_double_def)

lemma float_ge_fl:
  assumes "- max_double \<le> of_int k" and "of_int k \<le> max_double"
  shows "float_ge (fl x) k = (of_int k \<le> fl_fin x)"
  using assms by (auto simp: fl_def Let_def)

lemma float_lt_fl:
  assumes "- max_double \<le> of_int k" and "of_int k \<le> max_double"
  shows "float_lt (fl x) k = (fl_fin x < of_int k)"
  using assms by (auto simp: fl_def Let_def)

lemma fl_cases:
  obtains (pinf) "fl x = PInf" "max_double < fl_fin x"
  | (ninf) "fl x = NInf" "fl_fin x < - max_double"
  | (fin) "fl x = Finite (fl_fin x)" "- max_double \<le> fl_fin x" "fl_fin x \<le> max_double"
  using max_double_pos by (cases "max_double < fl_fin x"; cases "fl_fin x < - max_double")
    (auto simp: fl_def Let_def)

lemma fl_fin_32400: "fl_fin 32400 = 32400"
  by (simp add: fl_eval)

lemma fl_fin_9: "fl_fin 9 = 9"
  by (simp add: fl_eval)

lemma fl_fin_below_9: "fl_fin (fl_fin (32399999999 / 1000000) / 3600) < 9"
  by (simp add: fl_eval)

lemma max_double_ge: "32400 \<le> max_double"
  by (simp add: max_double_def)

lemma elapsed_hours_ge_iff:
  "float_ge (float_div (total_seconds td) 3600) OVERDUE_THRESHOLD_HOURS
     = (9 * us_per_hour \<le> td)"
proof (cases "9 * us_per_hour \<le> td")
  case True
  then have "(32400::rat) \<le> of_int td / 10 ^ 6"
    by (simp add: us_per_hour_def le_divide_eq)
  then have r1: "32400 \<le> fl_fin (of_int td / 10 ^ 6)"
    using fl_fin_mono [of 32400 "of_int td / 10 ^ 6"] by (simp add: fl_fin_32400)
  have "float_ge (float_div (total_seconds td) 3600) OVERDUE_THRESHOLD_HOURS"
  proof (cases "of_int td / 10 ^ 6 :: rat" rule: fl_cases)
    case pinf
    then show ?thesis by (simp add: total_seconds_def)
  next
    case ninf
    with r1 max_double_pos show ?thesis by simp
  next
    case fin
    have "(9::rat) \<le> fl_fin (of_int td / 10 ^ 6) / 3600" using r1 by simp
    then have "9 \<le> fl_fin (fl_fin (of_int td / 10 ^ 6) / 3600)"
      using fl_fin_mono [of 9 "fl_fin (of_int td / 10 ^ 6) / 3600"] by (simp add: fl_fin_9)
    then show ?thesis
      using fin(1) max_double_ge max_double_pos
      by (simp add: total_seconds_def OVERDUE_THRESHOLD_HOURS_def float_ge_fl)
  qed
  with True show ?thesis by simp
next
  case False
  then have "td \<le> 32399999999" by (simp add: us_per_hour_def)
  then have "(of_int td :: rat) \<le> 32399999999"
    by (metis of_int_le_iff of_int_numeral)
  then have "(of_int td :: rat) / 10 ^ 6 \<le> 32399999999 / 1000000"
    by simp
  then have r1: "fl_fin (of_int td / 10 ^ 6) \<le> fl_fin (32399999999 / 1000000)"
    by (rule fl_fin_mono)
  have "\<not> float_ge (float_div (total_seconds td) 3600) OVERDUE_THRESHOLD_HOURS"
  proof (cases "of_int td / 10 ^ 6 :: rat" rule: fl_cases)
    case pinf
    have "fl_fin (32399999999 / 1000000) \<le> fl_fin 32400"
      by (rule fl_fin_mono) simp
    with r1 pinf(2) max_double_ge show ?thesis by (simp add: fl_fin_32400)
  next
    case ninf
    then show ?thesis by (simp add: total_seconds_def)
  next
    case fin
    have "fl_fin (of_int td / 10 ^ 6) / 3600 \<le> fl_fin (32399999999 / 1000000) / 3600"
      using r1 by simp
    then have "fl_fin (fl_fin (of_int td / 10 ^ 6) / 3600)
               \<le> fl_fin (fl_fin (32399999999 / 1000000) / 3600)"
      by (rule fl_fin_mono)
    with fl_fin_below_9 have "\<not> 9 \<le> fl_fin (fl_fin (of_int td / 10 ^ 6) / 3600)"
      by simp
    then show ?thesis
      using fin(1) max_double_ge max_double_pos
      by (simp add: total_seconds_def OVERDUE_THRESHOLD_HOURS_def float_ge_fl)
  qed
  with False show ?thesis by simp
qed


subsection \<open>Representable values and the rounding error\<close>

lemma floor_rat_one_numeral [simp]:
  "\<lfloor>1 / numeral b :: rat\<rfloor> = 1 div numeral b"
  using floor_divide_of_int_eq [of 1 "numeral b", where ?'a = rat] by simp

lemma fl_Finite_iff:
  "fl x = Finite p \<longleftrightarrow> p = fl_fin x \<and> - max_double \<le> fl_fin x \<and> fl_fin x \<le> max_double"
  by (auto simp: fl_def Let_def)

lemma fl_FiniteI:
  "fl_fin x = p \<Longrightarrow> - max_double \<le> p \<Longrightarrow> p \<le> max_double \<Longrightarrow> fl x = Finite p"
  by (simp add: fl_Finite_iff)

lemma fl_PInfI: "max_double < fl_fin x \<Longrightarrow> fl x = PInf"
  by (simp add: fl_def)

lemma fl_not_NaN [simp]: "fl x \<noteq> NaN"
  by (simp add: fl_def Let_def)

lemma fl_fin_0 [simp]: "fl_fin 0 = 0"
  by (simp add: fl_fin_def)

lemma ulp_exp_le:
  assumes x: "0 < x" and lt: "x < 2 powi k" and k: "- 1021 \<le> k"
  shows "ulp_exp x \<le> k - 53"
proof -
  have "ilog2 x < k"
  proof (rule ccontr)
    assume "\<not> ilog2 x < k"
    then have "(2::rat) powi k \<le> 2 powi (ilog2 x)"
      by (intro power_int_increasing) simp_all
    also have "\<dots> \<le> x" using x by (rule ilog2_bounds)
    finally show False using lt by simp
  qed
  then show ?thesis using k x by (simp add: ulp_exp_def)
qed

lemma fl_fin_error:
  assumes x: "0 < x"
  shows "\<bar>fl_fin x - x\<bar> \<le> 2 powi (ulp_exp x) / 2"
proof -
  define u :: rat where "u = 2 powi (ulp_exp x)"
  have u: "0 < u" by (simp add: u_def)
  have "\<bar>of_int (rhe (x / u)) - x / u\<bar> \<le> 1 / 2"
    using rhe_bounds [of "x / u"] by linarith
  then have "\<bar>of_int (rhe (x / u)) - x / u\<bar> * u \<le> 1 / 2 * u"
    using u by (intro mult_right_mono) simp_all
  moreover have "\<bar>of_int (rhe (x / u)) * u - x\<bar> = \<bar>(of_int (rhe (x / u)) - x / u) * u\<bar>"
    using u by (simp add: left_diff_distrib)
  moreover have "\<bar>(of_int (rhe (x / u)) - x / u) * u\<bar> = \<bar>of_int (rhe (x / u)) - x / u\<bar> * u"
    using u by (simp add: abs_mult)
  ultimately show ?thesis
    by (simp add: fl_fin_pos [OF x] u_def)
qed

lemma fl_fin_error_below:
  assumes x: "0 < x" and lt: "x < 2 powi k" and k: "- 1021 \<le> k"
  shows "\<bar>fl_fin x - x\<bar> \<le> 2 powi (k - 54)"
proof -
  have "(2::rat) powi (ulp_exp x) \<le> 2 powi (k - 53)"
    by (intro power_int_increasing ulp_exp_le [OF assms]) simp
  then have "(2::rat) powi (ulp_exp x) / 2 \<le> 2 powi (k - 53) / 2" by simp
  also have "\<dots> = 2 powi (k - 54)"
    by (simp add: power_int_diff)
  finally show ?thesis using fl_fin_error [OF x] by linarith
qed

lemma fl_fin_exact_multiple:
  assumes d: "0 < d" and eq: "d = of_int D * 2 powi j" and le: "ulp_exp d \<le> j"
  shows "fl_fin d = d"
proof -
  define e where "e = ulp_exp d"
  define n where "n = nat (j - e)"
  define U :: rat where "U = 2 powi e"
  have U: "0 < U" by (simp add: U_def)
  have j: "j = e + int n" using le by (simp add: n_def e_def)
  have "(2::rat) powi j = U * 2 ^ n" by (simp add: j power_int_add U_def)
  with eq have dU: "d = of_int (D * 2 ^ n) * U" by simp
  then have "d / U = of_int (D * 2 ^ n)" using U by simp
  then have "rhe (d / U) = D * 2 ^ n" by (simp only: rhe_of_int)
  then have "fl_fin d = of_int (D * 2 ^ n) * U"
    using fl_fin_pos [OF d] by (simp add: U_def e_def)
  with dU show ?thesis by simp
qed

lemma fl_fin_of_int_pos:
  assumes "0 < n" and "n < 2 ^ 53"
  shows "fl_fin (of_int n) = of_int n"
proof (rule fl_fin_exact_multiple [where D = n and j = 0])
  show "(0::rat) < of_int n" using assms(1) by simp
  show "(of_int n :: rat) = of_int n * 2 powi 0" by simp
  have "(of_int n :: rat) < of_int (2 ^ 53)" using assms(2) by (simp only: of_int_less_iff)
  then have "(of_int n :: rat) < 2 powi 53" by simp
  then have "ulp_exp (of_int n) \<le> 53 - 53"
    by (intro ulp_exp_le) (use assms(1) in simp_all)
  then show "ulp_exp (of_int n :: rat) \<le> 0" by simp
qed

lemma fl_fin_of_int:
  assumes "\<bar>n\<bar> < 2 ^ 53"
  shows "fl_fin (of_int n) = of_int n"
proof -
  consider "0 < n" | "n = 0" | "n < 0" by linarith
  then show ?thesis
  proof cases
    case 1 then show ?thesis using assms by (simp add: fl_fin_of_int_pos)
  next
    case 2 then show ?thesis by simp
  next
    case 3
    then have "fl_fin (of_int (- n)) = of_int (- n)"
      using assms by (intro fl_fin_of_int_pos) simp_all
    then show ?thesis by (simp add: fl_fin_minus)
  qed
qed

lemma fl_fin_le_pow:
  assumes y: "0 < y"
  shows "fl_fin y \<le> 2 powi (ulp_exp y + 53)"
proof -
  have "ilog2 y - 52 \<le> ulp_exp y" using y by (simp add: ulp_exp_def)
  then have ex: "ilog2 y + 1 \<le> ulp_exp y + 53" by simp
  have "y < 2 powi (ilog2 y + 1)" using y by (rule ilog2_bounds)
  also have "\<dots> \<le> 2 powi (ulp_exp y + 53)"
    by (rule power_int_increasing) (use ex in simp_all)
  also have "\<dots> = 2 ^ 53 * 2 powi ulp_exp y"
    by (simp add: power_int_add)
  finally have "y / 2 powi ulp_exp y \<le> of_int (2 ^ 53)"
    by (simp add: divide_le_eq)
  then have "rhe (y / 2 powi ulp_exp y) \<le> rhe (of_int (2 ^ 53))"
    by (rule rhe_mono)
  then have "(of_int (rhe (y / 2 powi ulp_exp y)) :: rat) \<le> 2 ^ 53"
    unfolding rhe_of_int by (metis of_int_le_iff of_int_numeral of_int_power)
  then have "fl_fin y \<le> 2 ^ 53 * 2 powi ulp_exp y"
    by (simp add: fl_fin_pos y)
  also have "\<dots> = 2 powi (ulp_exp y + 53)"
    by (simp add: power_int_add)
  finally show ?thesis .
qed

lemma rhe_add_even: "even n \<Longrightarrow> rhe (x + of_int n) = rhe x + n"
  by (simp add: rhe_def Let_def)

lemma fl_fin_8: "fl_fin 8 = 8"
  by (simp add: fl_eval)

lemma sub9_exact:
  assumes y: "0 < y" and lt: "y < 2 powi 53" and ge: "9 \<le> fl_fin y"
  shows "fl_fin (fl_fin y - 9) = fl_fin y - 9"
proof (cases "fl_fin y = 9")
  case True
  then show ?thesis by simp
next
  case False
  define j where "j = ulp_exp y"
  define M where "M = rhe (y / 2 powi j)"
  have e: "fl_fin y = of_int M * 2 powi j"
    unfolding M_def j_def using y by (rule fl_fin_pos)
  have j0: "j \<le> 0" using ulp_exp_le [OF y lt] by (simp add: j_def)
  have "3 \<le> ilog2 y"
  proof (rule ccontr)
    assume "\<not> 3 \<le> ilog2 y"
    then have "ilog2 y + 1 \<le> 3" by simp
    then have "(2::rat) powi (ilog2 y + 1) \<le> 2 powi 3"
      by (rule power_int_increasing) simp
    moreover have "y < 2 powi (ilog2 y + 1)" using y by (rule ilog2_bounds)
    ultimately have "y \<le> 8" by simp
    then have "fl_fin y \<le> fl_fin 8" by (rule fl_fin_mono)
    with ge show False by (simp add: fl_fin_8)
  qed
  then have j49: "- 49 \<le> j" using y by (simp add: j_def ulp_exp_def)
  define n where "n = nat (- j)"
  have jn: "j = - int n" using j0 by (simp add: n_def)
  have p: "(2::rat) powi j * 2 ^ n = 1"
    by (simp add: jn power_int_minus)
  have "(9::rat) = of_int (9 * 2 ^ n) * 2 powi j"
    using p by (simp add: mult.assoc mult.commute [of "2 ^ n"])
  then have d: "fl_fin y - 9 = of_int (M - 9 * 2 ^ n) * 2 powi j"
    by (simp add: e left_diff_distrib)
  have pos: "0 < fl_fin y - 9" using ge False by simp
  have "fl_fin y - 9 < fl_fin y" by simp
  also have "fl_fin y \<le> 2 powi (j + 53)" unfolding j_def using y by (rule fl_fin_le_pow)
  finally have "ulp_exp (fl_fin y - 9) \<le> (j + 53) - 53"
    using pos j49 by (intro ulp_exp_le) simp_all
  then have "ulp_exp (fl_fin y - 9) \<le> j" by simp
  with pos d show ?thesis by (rule fl_fin_exact_multiple)
qed

lemma fl_fin_pow43: "fl_fin (of_int (2 ^ 43)) = of_int (2 ^ 43)"
  by (rule fl_fin_of_int) simp

lemma fl_fin_pow32: "fl_fin (of_int (2 ^ 32)) = of_int (2 ^ 32)"
  by (rule fl_fin_of_int) simp

lemma max_double_ge_2_53: "2 ^ 53 \<le> max_double"
  by (simp add: max_double_def)

subsection \<open>The float operations are monotone\<close>

lemma float_le_PInf [simp]: "float_le x PInf = (x \<noteq> NaN)"
  by (cases x) simp_all

lemma float_le_NInf [simp]: "float_le NInf y = (y \<noteq> NaN)"
  by (cases y) simp_all

lemma float_le_antisym: "float_le (Finite a) x \<Longrightarrow> float_le x (Finite a) \<Longrightarrow> x = Finite a"
  by (cases x) simp_all

lemma float_lt_le_trans: "float_le x y \<Longrightarrow> float_lt y k \<Longrightarrow> float_lt x k"
  by (cases x; cases y) auto

lemma float_ge_iff_le: "float_ge x k = float_le (Finite (of_int k)) x"
  by (cases x) simp_all

lemma fl_mono: "x \<le> y \<Longrightarrow> float_le (fl x) (fl y)"
  using fl_fin_mono [of x y] max_double_pos by (auto simp: fl_def Let_def)

lemma float_div_mono:
  "0 < c \<Longrightarrow> float_le a b \<Longrightarrow> float_le (float_div a c) (float_div b c)"
  by (cases a; cases b) (auto intro!: fl_mono simp: divide_right_mono)

lemma float_sub_mono:
  "float_le a b \<Longrightarrow> float_le (float_sub a c) (float_sub b c)"
  by (cases a; cases b) (auto intro!: fl_mono)

lemma py_round_mono:
  "float_le a b \<Longrightarrow> float_le (py_round a n) (py_round b n)"
proof (cases a; cases b)
  fix x y
  assume ab: "float_le a b" and a: "a = Finite x" and b: "b = Finite y"
  then have "x * 10 ^ n \<le> y * 10 ^ n" by simp
  then have "rhe (x * 10 ^ n) \<le> rhe (y * 10 ^ n)" by (rule rhe_mono)
  then have "(of_int (rhe (x * 10 ^ n)) :: rat) / 10 ^ n \<le> of_int (rhe (y * 10 ^ n)) / 10 ^ n"
    by (simp add: divide_right_mono)
  then show ?thesis using a b by (simp add: fl_mono)
qed auto

lemma total_seconds_mono: "a \<le> b \<Longrightarrow> float_le (total_seconds a) (total_seconds b)"
  unfolding total_seconds_def by (rule fl_mono) (simp add: divide_right_mono)

lemma elapsed_hours_mono: "a \<le> b \<Longrightarrow> float_le (elapsed_hours a) (elapsed_hours b)"
  unfolding elapsed_hours_def by (intro float_div_mono total_seconds_mono) simp_all

lemma hours_rounded_mono:
  "a \<le> b \<Longrightarrow> float_le (py_round (elapsed_hours a) 2) (py_round (elapsed_hours b) 2)"
  by (intro py_round_mono elapsed_hours_mono)

section \<open>The overdue test\<close>

lemma make_aware_naive:
  "(if is_naive d then make_aware env d else Inr d) = Inr (aware env d)"
  by (simp add: make_aware_def is_naive_def aware_def)

lemma tzinfo_aware: "tzinfo (aware env d) \<noteq> None"
  by (simp add: aware_def)

lemma dt_sub_aware:
  "\<exists>td. dt_sub off (aware env a) (aware env b) = Inr td"
  using tzinfo_aware [of env a] tzinfo_aware [of env b]
  by (auto simp: dt_sub_def Let_def split: option.splits)

lemma dt_sub_same_tzinfo:
  "tzinfo a = tzinfo b \<Longrightarrow> dt_sub off a b = Inr (ticks a - ticks b)"
  by (simp add: dt_sub_def)

lemma is_order_overdue_Some:
  "is_order_overdue env (Some s) (Some n) =
     (case dt_sub (utcoffset env) (aware env n) (aware env s) of
        Inl e \<Rightarrow> Inl e
      | Inr td \<Rightarrow> Inr (9 * us_per_hour \<le> td))"
  by (simp add: is_order_overdue_def make_aware_naive elapsed_hours_ge_iff split: sum.splits)

lemma is_order_overdue_same_tzinfo:
  "is_order_overdue env (Some t) (Some (t\<lparr>ticks := k\<rparr>)) = Inr (9 * us_per_hour \<le> k - ticks t)"
proof -
  have "tzinfo (aware env (t\<lparr>ticks := k\<rparr>)) = tzinfo (aware env t)"
    by (simp add: aware_def)
  then have "dt_sub (utcoffset env) (aware env (t\<lparr>ticks := k\<rparr>)) (aware env t)
             = Inr (ticks (aware env (t\<lparr>ticks := k\<rparr>)) - ticks (aware env t))"
    by (rule dt_sub_same_tzinfo)
  also have "ticks (aware env (t\<lparr>ticks := k\<rparr>)) - ticks (aware env t) = k - ticks t"
    by (simp add: aware_def)
  finally show ?thesis by (simp add: is_order_overdue_Some)
qed

text \<open>
  Claim C2.  With both timestamps present, \<open>is_order_overdue\<close> raises nothing and
  returns true exactly when the difference \<open>now - started_at\<close> of the two timestamps
  (each taken as the function normalises it), measured in hours as an exact number,
  is at least 9.  The float arithmetic of the code never moves the threshold.  In
  particular the answer is false for \<open>(t, t)\<close>, true for \<open>(t, t + 9 hours)\<close> and
  false for \<open>(t, t + 8 hours 59 minutes)\<close>.
\<close>

theorem is_order_overdue_iff_nine_hours:
  "(\<exists>td. dt_sub (utcoffset env) (aware env n) (aware env s) = Inr td
         \<and> is_order_overdue env (Some s) (Some n)
             = Inr (9 \<le> (of_int td :: rat) / of_int us_per_hour))
   \<and> is_order_overdue env (Some t) (Some t) = Inr False
   \<and> is_order_overdue env (Some t) (Some (t\<lparr>ticks := ticks t + 9 * us_per_hour\<rparr>)) = Inr True
   \<and> is_order_overdue env (Some t)
        (Some (t\<lparr>ticks := ticks t + (8 * us_per_hour + 59 * 60000000)\<rparr>)) = Inr False"
proof (intro conjI)
  obtain td where td: "dt_sub (utcoffset env) (aware env n) (aware env s) = Inr td"
    using dt_sub_aware by blast
  have "(9 \<le> (of_int td :: rat) / of_int us_per_hour) = (9 * us_per_hour \<le> td)"
  proof -
    have "(9 \<le> (of_int td :: rat) / of_int us_per_hour)
          = ((of_int (9 * us_per_hour) :: rat) \<le> of_int td)"
      by (simp add: us_per_hour_def le_divide_eq)
    then show ?thesis by (simp only: of_int_le_iff)
  qed
  with td show "\<exists>td. dt_sub (utcoffset env) (aware env n) (aware env s) = Inr td
         \<and> is_order_overdue env (Some s) (Some n)
             = Inr (9 \<le> (of_int td :: rat) / of_int us_per_hour)"
    by (simp add: is_order_overdue_Some)
next
  have "is_order_overdue env (Some t) (Some (t\<lparr>ticks := ticks t\<rparr>)) = Inr False"
    unfolding is_order_overdue_same_tzinfo by (simp add: us_per_hour_def)
  then show "is_order_overdue env (Some t) (Some t) = Inr False" by simp
next
  show "is_order_overdue env (Some t) (Some (t\<lparr>ticks := ticks t + 9 * us_per_hour\<rparr>)) = Inr True"
    unfolding is_order_overdue_same_tzinfo by simp
next
  show "is_order_overdue env (Some t)
        (Some (t\<lparr>ticks := ticks t + (8 * us_per_hour + 59 * 60000000)\<rparr>)) = Inr False"
    unfolding is_order_overdue_same_tzinfo by (simp add: us_per_hour_def)
qed

lemma dt_sub_aware_eq:
  "dt_sub (utcoffset env) (aware env a) (aware env b) =
     Inr (if tzinfo (aware env a) = tzinfo (aware env b) then ticks a - ticks b
          else (ticks a - utc_offset_of env (aware env a))
               - (ticks b - utc_offset_of env (aware env b)))"
  by (auto simp: dt_sub_def aware_def utc_offset_of_def Let_def split: option.splits)

lemma dt_sub_offsets_agree:
  assumes "offsets_agree env (aware env a) (aware env b)"
  shows "dt_sub (utcoffset env) (aware env a) (aware env b) =
     Inr ((ticks a - utc_offset_of env (aware env a))
          - (ticks b - utc_offset_of env (aware env b)))"
  using assms by (simp add: dt_sub_aware_eq offsets_agree_def)

text \<open>
  Claim C8, as stated, fails: Python subtracts two datetimes that carry the same tzinfo
  object by their readings and two datetimes with different tzinfo objects by their
  instants, so the elapsed time need not grow with \<open>now\<close>.  With a start at 18:00 New
  York time on 2024-03-09, the order is overdue at 03:00 New York time the next
  morning (nine hours on the clock face, eight elapsed) and not overdue half an hour
  later when that time is given in UTC (07:30).  With a start at 22:30 UTC, it is
  overdue at the reading 02:30 New York time and not overdue at 03:00 New York time,
  although both carry the same tzinfo object and \<open>now1 <= now2\<close> holds.
\<close>

theorem is_order_overdue_not_monotone_across_dst:
  "dt_le (utcoffset dst_env) (aware dst_env (march_2024 10 3 0 (Some NEW_YORK)))
        (aware dst_env (march_2024 10 7 30 (Some UTC))) = Inr True
   \<and> is_order_overdue dst_env (Some (march_2024 9 18 0 (Some NEW_YORK)))
        (Some (march_2024 10 3 0 (Some NEW_YORK))) = Inr True
   \<and> is_order_overdue dst_env (Some (march_2024 9 18 0 (Some NEW_YORK)))
        (Some (march_2024 10 7 30 (Some UTC))) = Inr False
   \<and> dt_le (utcoffset dst_env) (aware dst_env (march_2024 10 2 30 (Some NEW_YORK)))
        (aware dst_env (march_2024 10 3 0 (Some NEW_YORK))) = Inr True
   \<and> is_order_overdue dst_env (Some (march_2024 9 22 30 (Some UTC)))
        (Some (march_2024 10 2 30 (Some NEW_YORK))) = Inr True
   \<and> is_order_overdue dst_env (Some (march_2024 9 22 30 (Some UTC)))
        (Some (march_2024 10 3 0 (Some NEW_YORK))) = Inr False"
  by (simp add: dt_le_def is_order_overdue_Some dt_sub_def aware_def march_2024_def dst_env_def
      example_env_def dst_offset_def zone_offset_def NEW_YORK_def UTC_def TOKYO_def
      us_per_hour_def us_per_day_def)

text \<open>
  Claim C8, amended.  The overdue test is monotone in the current time whenever the
  three timestamps, as the function normalises them, either all carry the same tzinfo
  object, or are such that any two of them that carry the same tzinfo object have the
  same UTC offset (as with fixed-offset zones, with pairwise different zones, or when
  no change of offset lies between them): then \<open>now1 <= now2\<close> and overdue at
  \<open>now1\<close> imply overdue at \<open>now2\<close>.
\<close>

theorem is_order_overdue_monotone_consistent_offsets:
  assumes "(tzinfo (aware env started) = tzinfo (aware env now1)
            \<and> tzinfo (aware env now1) = tzinfo (aware env now2))
           \<or> (offsets_agree env (aware env now1) (aware env now2)
               \<and> offsets_agree env (aware env now1) (aware env started)
               \<and> offsets_agree env (aware env now2) (aware env started))"
    and "dt_le (utcoffset env) (aware env now1) (aware env now2) = Inr True"
    and "is_order_overdue env (Some started) (Some now1) = Inr True"
  shows "is_order_overdue env (Some started) (Some now2) = Inr True"
  using assms(1)
proof (elim disjE conjE)
  assume z: "tzinfo (aware env started) = tzinfo (aware env now1)"
    "tzinfo (aware env now1) = tzinfo (aware env now2)"
  have le: "ticks now1 \<le> ticks now2"
    using assms(2) z by (simp add: dt_le_def dt_sub_aware_eq)
  have "9 * us_per_hour \<le> ticks now1 - ticks started"
    using assms(3) z by (simp add: is_order_overdue_Some dt_sub_aware_eq)
  with le have "9 * us_per_hour \<le> ticks now2 - ticks started" by simp
  then show ?thesis
    using z by (simp add: is_order_overdue_Some dt_sub_aware_eq)
next
  assume a: "offsets_agree env (aware env now1) (aware env now2)"
    "offsets_agree env (aware env now1) (aware env started)"
    "offsets_agree env (aware env now2) (aware env started)"
  have le: "ticks now1 - utc_offset_of env (aware env now1)
            \<le> ticks now2 - utc_offset_of env (aware env now2)"
    using assms(2) by (simp add: dt_le_def dt_sub_offsets_agree [OF a(1)])
  have "9 * us_per_hour \<le> (ticks now1 - utc_offset_of env (aware env now1))
          - (ticks started - utc_offset_of env (aware env started))"
    using assms(3) by (simp add: is_order_overdue_Some dt_sub_offsets_agree [OF a(2)])
  with le have "9 * us_per_hour \<le> (ticks now2 - utc_offset_of env (aware env now2))
          - (ticks started - utc_offset_of env (aware env started))"
    by linarith
  then show ?thesis
    by (simp add: is_order_overdue_Some dt_sub_offsets_agree [OF a(3)])
qed

text \<open>
  The hypotheses of C8 hold for a start at 00:00 UTC and the times 18:00 and 19:00 in
  the zone nine hours ahead of UTC.
\<close>

theorem is_order_overdue_monotone_consistent_offsets_witness:
  "((tzinfo (aware example_env (at_2024 0 (Some UTC)))
       = tzinfo (aware example_env (at_2024 18 (Some TOKYO)))
     \<and> tzinfo (aware example_env (at_2024 18 (Some TOKYO)))
       = tzinfo (aware example_env (at_2024 19 (Some TOKYO))))
    \<or> (offsets_agree example_env (aware example_env (at_2024 18 (Some TOKYO)))
          (aware example_env (at_2024 19 (Some TOKYO)))
       \<and> offsets_agree example_env (aware example_env (at_2024 18 (Some TOKYO)))
          (aware example_env (at_2024 0 (Some UTC)))
       \<and> offsets_agree example_env (aware example_env (at_2024 19 (Some TOKYO)))
          (aware example_env (at_2024 0 (Some UTC)))))
   \<and> dt_le (utcoffset example_env) (aware example_env (at_2024 18 (Some TOKYO)))
         (aware example_env (at_2024 19 (Some TOKYO))) = Inr True
   \<and> is_order_overdue example_env (Some (at_2024 0 (Some UTC)))
         (Some (at_2024 18 (Some TOKYO))) = Inr True
   \<and> is_order_overdue example_env (Some (at_2024 0 (Some UTC)))
         (Some (at_2024 19 (Some TOKYO))) = Inr True"
proof -
  have h1: "(tzinfo (aware example_env (at_2024 0 (Some UTC)))
       = tzinfo (aware example_env (at_2024 18 (Some TOKYO)))
     \<and> tzinfo (aware example_env (at_2024 18 (Some TOKYO)))
       = tzinfo (aware example_env (at_2024 19 (Some TOKYO))))
    \<or> (offsets_agree example_env (aware example_env (at_2024 18 (Some TOKYO)))
          (aware example_env (at_2024 19 (Some TOKYO)))
       \<and> offsets_agree example_env (aware example_env (at_2024 18 (Some TOKYO)))
          (aware example_env (at_2024 0 (Some UTC)))
       \<and> offsets_agree example_env (aware example_env (at_2024 19 (Some TOKYO)))
          (aware example_env (at_2024 0 (Some UTC))))"
    by (simp add: offsets_agree_def utc_offset_of_def aware_def at_2024_def example_env_def
        zone_offset_def UTC_def TOKYO_def)
  have h2: "dt_le (utcoffset example_env) (aware example_env (at_2024 18 (Some TOKYO)))
         (aware example_env (at_2024 19 (Some TOKYO))) = Inr True"
    by (simp add: dt_le_def dt_sub_def aware_def at_2024_def us_per_hour_def)
  have h3: "is_order_overdue example_env (Some (at_2024 0 (Some UTC)))
         (Some (at_2024 18 (Some TOKYO))) = Inr True"
    by (simp add: is_order_overdue_Some dt_sub_def aware_def at_2024_def example_env_def
        zone_offset_def UTC_def TOKYO_def us_per_hour_def)
  from is_order_overdue_monotone_consistent_offsets [OF h1 h2 h3] h1 h2 h3
  show ?thesis by blast
qed

text \<open>
  Claim C7, as stated, fails: with a naive \<open>started_at\<close> and an aware \<open>now\<close> the
  answer of \<open>is_order_overdue\<close> depends on the current time zone of the surroundings.
  The same explicit inputs (start 2024-01-01T00:00 naive, now 2024-01-01T05:00 UTC) are
  not overdue when the current time zone is UTC (5 hours elapsed) and overdue when it is
  UTC+9 (14 hours elapsed).
\<close>

theorem is_order_overdue_depends_on_current_timezone:
  "is_order_overdue example_env (Some (at_2024 0 None)) (Some (at_2024 5 (Some UTC)))
     = Inr False
   \<and> is_order_overdue (example_env\<lparr>get_current_timezone := TOKYO\<rparr>)
        (Some (at_2024 0 None)) (Some (at_2024 5 (Some UTC)))
     = Inr True"
  by (simp add: is_order_overdue_Some dt_sub_def aware_def at_2024_def us_per_hour_def
      example_env_def UTC_def TOKYO_def zone_offset_def)

text \<open>
  Claim C7, amended.  Two runs with the same explicit inputs return the same results
  whatever the two clocks read, provided the tzinfo objects have the same offsets in
  both runs and either the current time zone is the same in both runs or
  \<open>started_at\<close> and \<open>now\<close> are both naive or both aware.  \<open>format_hours\<close> and
  \<open>estimate_completion_time\<close> read nothing but their arguments.
\<close>

theorem results_depend_on_explicit_inputs_and_current_timezone:
  assumes "utcoffset env1 = utcoffset env2"
    and "get_current_timezone env1 = get_current_timezone env2
         \<or> (tzinfo s = None) = (tzinfo n = None)"
    and "h1 = h2" and "s1 = s2" and "m1 = m2"
  shows "is_order_overdue env1 (Some s) (Some n) = is_order_overdue env2 (Some s) (Some n)
         \<and> is_order_overdue env1 None (Some n) = is_order_overdue env2 None (Some n)
         \<and> format_hours h1 = format_hours h2
         \<and> estimate_completion_time s1 m1 = estimate_completion_time s2 m2"
proof -
  have "dt_sub (utcoffset env1) (aware env1 n) (aware env1 s)
        = dt_sub (utcoffset env2) (aware env2 n) (aware env2 s)"
    using assms(1,2) by (auto simp: dt_sub_def aware_def Let_def split: option.splits)
  then show ?thesis
    using assms(3-5) by (simp add: is_order_overdue_Some) (simp add: is_order_overdue_def)
qed

text \<open>
  The hypotheses of C7 hold for two runs whose clocks and current time zones differ,
  on two naive timestamps.
\<close>

theorem results_depend_on_explicit_inputs_and_current_timezone_witness:
  "utcoffset example_env = utcoffset (example_env\<lparr>timezone_now := at_2024 20 None,
                                                   get_current_timezone := TOKYO\<rparr>)
   \<and> (get_current_timezone example_env
        = get_current_timezone (example_env\<lparr>timezone_now := at_2024 20 None,
                                              get_current_timezone := TOKYO\<rparr>)
       \<or> (tzinfo (at_2024 0 None) = None) = (tzinfo (at_2024 5 None :: nat datetime) = None))
   \<and> is_order_overdue example_env (Some (at_2024 0 None)) (Some (at_2024 5 None))
       = is_order_overdue (example_env\<lparr>timezone_now := at_2024 20 None,
                                         get_current_timezone := TOKYO\<rparr>)
           (Some (at_2024 0 None)) (Some (at_2024 5 None))
   \<and> format_hours (Finite (3 / 2)) = format_hours (Finite (3 / 2))
   \<and> estimate_completion_time (Some (at_2024 0 None)) (Some 90)
       = estimate_completion_time (Some (at_2024 0 None)) (Some 90)"
proof -
  have h1: "utcoffset example_env = utcoffset (example_env\<lparr>timezone_now := at_2024 20 None,
                                                   get_current_timezone := TOKYO\<rparr>)"
    by simp
  have h2: "get_current_timezone example_env
        = get_current_timezone (example_env\<lparr>timezone_now := at_2024 20 None,
                                              get_current_timezone := TOKYO\<rparr>)
       \<or> (tzinfo (at_2024 0 None) = None) = (tzinfo (at_2024 5 None :: nat datetime) = None)"
    by (simp add: at_2024_def)
  from results_depend_on_explicit_inputs_and_current_timezone
         [OF h1 h2 refl refl refl, of "Finite (3 / 2)" "Some (at_2024 0 None)" "Some 90"] h1 h2
  show ?thesis by simp
qed

section \<open>The overdue status\<close>

lemma us_per_hour_nonneg: "0 \<le> us_per_hour"
  by (simp add: us_per_hour_def)

lemma nine_hours_iff:
  "(9 \<le> (of_int td :: rat) / of_int us_per_hour) = (9 * us_per_hour \<le> td)"
proof -
  have "(9 \<le> (of_int td :: rat) / of_int us_per_hour)
        = ((of_int (9 * us_per_hour) :: rat) \<le> of_int td)"
    by (simp add: us_per_hour_def le_divide_eq)
  then show ?thesis by (simp only: of_int_le_iff)
qed

lemma get_order_overdue_status_Some:
  "started_at order = Some s \<Longrightarrow>
   snd (get_order_overdue_status env order) =
     (case dt_sub (utcoffset env) (aware env (timezone_now env)) (aware env s) of
        Inl e \<Rightarrow> Inl e
      | Inr td \<Rightarrow>
          Inr \<lparr>is_overdue = (9 * us_per_hour \<le> td),
               hours_elapsed = py_round (float_div (total_seconds td) 3600) 2,
               overdue_by_hours =
                 (if 9 * us_per_hour \<le> td
                  then py_round (float_sub (float_div (total_seconds td) 3600) 9) 2
                  else Finite 0)\<rparr>)"
  by (simp add: get_order_overdue_status_def make_aware_naive elapsed_hours_ge_iff Let_def
      elapsed_hours_ge_iff [unfolded OVERDUE_THRESHOLD_HOURS_def]
      OVERDUE_THRESHOLD_HOURS_def split: sum.splits)

lemma status_Some:
  assumes "started_at order = Some s"
    and "dt_sub (utcoffset env) (aware env (timezone_now env)) (aware env s) = Inr td"
  shows "snd (get_order_overdue_status env order) =
          Inr \<lparr>is_overdue = (9 * us_per_hour \<le> td),
               hours_elapsed = py_round (elapsed_hours td) 2,
               overdue_by_hours =
                 (if 9 * us_per_hour \<le> td then py_round (float_sub (elapsed_hours td) 9) 2
                  else Finite 0)\<rparr>"
  using assms by (simp add: get_order_overdue_status_Some elapsed_hours_def)

lemma status_example:
  "snd (get_order_overdue_status example_env (order_started k)) =
          Inr \<lparr>is_overdue = (9 * us_per_hour \<le> k),
               hours_elapsed = py_round (elapsed_hours k) 2,
               overdue_by_hours =
                 (if 9 * us_per_hour \<le> k then py_round (float_sub (elapsed_hours k) 9) 2
                  else Finite 0)\<rparr>"
  by (rule status_Some [where s = "\<lparr>ticks = ticks (timezone_now example_env) - k, tzinfo = Some UTC\<rparr>"])
     (simp_all add: order_started_def dt_sub_def aware_def example_env_def at_2024_def)

text \<open>
  Claim C5.  With an absent start time nothing is raised and each function returns its
  default: \<open>is_order_overdue\<close> false, \<open>get_order_overdue_status\<close> the status with
  false and two zeros, \<open>estimate_completion_time\<close> null.
\<close>

theorem absent_start_time_defaults:
  "is_order_overdue env None now = Inr False
   \<and> snd (get_order_overdue_status env (order\<lparr>started_at := None\<rparr>))
       = Inr \<lparr>is_overdue = False, hours_elapsed = Finite 0, overdue_by_hours = Finite 0\<rparr>
   \<and> estimate_completion_time None estimated_minutes = Inr None"
  by (simp add: is_order_overdue_def get_order_overdue_status_def estimate_completion_time_def)

text \<open>
  Claim C6.  \<open>get_order_overdue_status\<close> leaves the order as it was: the order
  after the call is the order before it, \<open>started_at\<close> and every other attribute
  included.
\<close>

theorem get_order_overdue_status_keeps_order:
  "fst (get_order_overdue_status env order) = order"
  by (simp add: get_order_overdue_status_def Let_def split: option.splits sum.splits)

subsection \<open>Values at concrete elapsed times\<close>

lemma elapsed_hours_10h: "elapsed_hours (10 * us_per_hour) = Finite 10"
  by (simp add: elapsed_hours_def total_seconds_def us_per_hour_def fl_def fl_eval max_double_def)

lemma elapsed_hours_9h: "elapsed_hours (9 * us_per_hour) = Finite 9"
  by (simp add: elapsed_hours_def total_seconds_def us_per_hour_def fl_def fl_eval max_double_def)

lemma py_round_9: "py_round (Finite 9) 2 = Finite 9"
  by (simp add: fl_def fl_eval max_double_def)

lemma py_round_10: "py_round (Finite 10) 2 = Finite 10"
  by (simp add: fl_def fl_eval max_double_def)

lemma float_sub_10_9: "float_sub (Finite 10) 9 = Finite 1"
  by (simp add: fl_def fl_eval max_double_def)

lemma float_sub_9_9: "float_sub (Finite 9) 9 = Finite 0"
  by (simp add: fl_def fl_eval max_double_def)

lemma py_round_1: "py_round (Finite 1) 2 = Finite 1"
  by (simp add: fl_def fl_eval max_double_def)

lemma py_round_0: "py_round (Finite 0) 2 = Finite 0"
  by (simp add: fl_def fl_eval max_double_def)

lemma elapsed_hours_32386s: "elapsed_hours 32386000000 = Finite (5064360330972947 / 562949953421312)"
  by (simp add: elapsed_hours_def total_seconds_def fl_def fl_eval max_double_def)

lemma py_round_32386s: "py_round (Finite (5064360330972947 / 562949953421312)) 2 = Finite 9"
  by (simp add: fl_def fl_eval max_double_def)

lemma elapsed_hours_36036s:
  "elapsed_hours 36036000000 = Finite (5635129033747333 / 562949953421312)"
  by (simp add: elapsed_hours_def total_seconds_def fl_def fl_eval max_double_def)

lemma py_round_36036s:
  "py_round (Finite (5635129033747333 / 562949953421312)) 2
     = Finite (5635129033747333 / 562949953421312)"
  by (simp add: fl_def fl_eval max_double_def)

lemma float_sub_36036s:
  "float_sub (Finite (5635129033747333 / 562949953421312)) 9
     = Finite (568579452955525 / 562949953421312)"
  by (simp add: fl_def fl_eval max_double_def)

lemma py_round_over_36036s:
  "py_round (Finite (568579452955525 / 562949953421312)) 2
     = Finite (4548635623644201 / 4503599627370496)"
  by (simp add: fl_def fl_eval max_double_def)

lemma elapsed_hours_minus_1h: "elapsed_hours (- 3600000000) = Finite (- 1)"
  by (simp add: elapsed_hours_def total_seconds_def fl_def fl_eval max_double_def)

lemma py_round_minus_1: "py_round (Finite (- 1)) 2 = Finite (- 1)"
  by (simp add: fl_def fl_eval max_double_def)

lemma rounded_minus_18s: "float_lt (py_round (elapsed_hours (- 18000000)) 2) 0"
  by (simp add: elapsed_hours_def total_seconds_def fl_def fl_eval max_double_def)

lemma rounded_minus_17s: "py_round (elapsed_hours (- 17999999)) 2 = Finite 0"
  by (simp add: elapsed_hours_def total_seconds_def fl_def fl_eval max_double_def)

lemma rounded_minus_1us: "py_round (elapsed_hours (- 1)) 2 = Finite 0"
  by (simp add: elapsed_hours_def total_seconds_def fl_def fl_eval max_double_def)

subsection \<open>The fields of the status\<close>

lemma rounded_ge_9:
  assumes "9 * us_per_hour \<le> td"
  shows "float_ge (py_round (elapsed_hours td) 2) 9"
proof -
  have "float_le (py_round (elapsed_hours (9 * us_per_hour)) 2) (py_round (elapsed_hours td) 2)"
    using assms by (rule hours_rounded_mono)
  then show ?thesis
    by (simp add: elapsed_hours_9h py_round_9 float_ge_iff_le del: py_round.simps)
qed

lemma overdue_by_ge_0:
  assumes "9 * us_per_hour \<le> td"
  shows "float_ge (py_round (float_sub (elapsed_hours td) 9) 2) 0"
proof -
  have "float_le (py_round (float_sub (elapsed_hours (9 * us_per_hour)) 9) 2)
                 (py_round (float_sub (elapsed_hours td) 9) 2)"
    using assms by (intro py_round_mono float_sub_mono elapsed_hours_mono)
  then show ?thesis
    by (simp add: elapsed_hours_9h float_sub_9_9 py_round_0 float_ge_iff_le
        del: py_round.simps float_sub.simps)
qed

lemma overdue_fields_decimal:
  assumes ge: "9 * us_per_hour \<le> td" and lt: "td < 2 ^ 62"
  shows "\<exists>k. py_round (elapsed_hours td) 2 = fl (of_int k / 100)
           \<and> py_round (float_sub (elapsed_hours td) 9) 2 = fl (of_int (k - 900) / 100)"
proof -
  define r1 where "r1 = fl_fin (of_int td / 10 ^ 6)"
  define y where "y = r1 / 3600"
  define e where "e = fl_fin y"
  have md: "(2::rat) ^ 43 \<le> max_double" by (simp add: max_double_def)
  have "(32400::rat) \<le> of_int td / 10 ^ 6" using ge
    by (simp add: us_per_hour_def le_divide_eq)
  then have r1_lo: "32400 \<le> r1"
    unfolding r1_def using fl_fin_mono [of 32400 "of_int td / 10 ^ 6"] by (simp add: fl_fin_32400)
  have "(of_int td :: rat) < of_int (2 ^ 62)" using lt by (simp only: of_int_less_iff)
  then have "(of_int td :: rat) / 10 ^ 6 \<le> of_int (2 ^ 43)" by simp
  then have "r1 \<le> fl_fin (of_int (2 ^ 43))" unfolding r1_def by (rule fl_fin_mono)
  then have r1_hi: "r1 \<le> 2 ^ 43" using fl_fin_pow43 by simp
  have ts: "total_seconds td = Finite r1"
    unfolding total_seconds_def r1_def [symmetric]
    using r1_lo r1_hi md max_double_pos by (intro fl_FiniteI) (simp_all add: r1_def)
  have y0: "0 < y" using r1_lo by (simp add: y_def)
  have "y \<le> of_int (2 ^ 32)" using r1_hi by (simp add: y_def)
  then have "e \<le> fl_fin (of_int (2 ^ 32))" unfolding e_def by (rule fl_fin_mono)
  then have e_hi: "e \<le> 2 ^ 32" using fl_fin_pow32 by simp
  have y53: "y < 2 powi 53" using \<open>y \<le> of_int (2 ^ 32)\<close> by simp
  have "(9::rat) \<le> y" using r1_lo by (simp add: y_def)
  then have e_lo: "9 \<le> e" unfolding e_def using fl_fin_mono [of 9 y] by (simp add: fl_fin_9)
  have eh: "elapsed_hours td = Finite e"
    unfolding elapsed_hours_def ts float_div.simps y_def [symmetric]
    using e_lo e_hi md max_double_pos by (intro fl_FiniteI) (simp_all add: e_def)
  have ex: "fl_fin (e - 9) = e - 9"
    unfolding e_def using y0 y53 e_lo [unfolded e_def] by (rule sub9_exact)
  have sub: "float_sub (Finite e) 9 = Finite (e - 9)"
    unfolding float_sub.simps using ex e_lo e_hi md max_double_pos
    by (intro fl_FiniteI) simp_all
  have a: "(e - 9) * 10 ^ 2 = e * 10 ^ 2 + of_int (- 900)" by (simp add: algebra_simps)
  have b: "rhe (e * 10 ^ 2 + of_int (- 900)) = rhe (e * 10 ^ 2) + (- 900)"
    by (rule rhe_add_even) simp
  have r: "rhe ((e - 9) * 10 ^ 2) = rhe (e * 10 ^ 2) - 900" unfolding a b by simp
  have "py_round (elapsed_hours td) 2 = fl (of_int (rhe (e * 10 ^ 2)) / 100)"
    by (simp add: eh)
  moreover have "py_round (float_sub (elapsed_hours td) 9) 2
                 = fl (of_int (rhe (e * 10 ^ 2) - 900) / 100)"
    unfolding eh sub py_round.simps r by simp
  ultimately show ?thesis by blast
qed

text \<open>
  Claim C1, as stated, fails on both relations between the fields.  After 8 hours 59
  minutes 46 seconds the order is not overdue, yet \<open>hours_elapsed\<close> is rounded up to
  \<open>9.0\<close>, so \<open>is_overdue\<close> differs from \<open>hours_elapsed >= 9\<close>.  After 10.01
  hours \<open>hours_elapsed\<close> is the float \<open>10.01\<close> and \<open>overdue_by_hours\<close> is the
  float \<open>1.01\<close>, while \<open>hours_elapsed - 9\<close> is \<open>1.0099999999999998\<close>.
\<close>

theorem overdue_status_breaks_invariant:
  "snd (get_order_overdue_status example_env (order_started 32386000000))
     = Inr \<lparr>is_overdue = False, hours_elapsed = Finite 9, overdue_by_hours = Finite 0\<rparr>
   \<and> float_ge (Finite 9) OVERDUE_THRESHOLD_HOURS
   \<and> snd (get_order_overdue_status example_env (order_started 36036000000))
     = Inr \<lparr>is_overdue = True,
            hours_elapsed = Finite (5635129033747333 / 562949953421312),
            overdue_by_hours = Finite (4548635623644201 / 4503599627370496)\<rparr>
   \<and> float_sub (Finite (5635129033747333 / 562949953421312)) (of_int OVERDUE_THRESHOLD_HOURS)
       \<noteq> Finite (4548635623644201 / 4503599627370496)"
  by (simp add: status_example us_per_hour_def elapsed_hours_32386s py_round_32386s
      elapsed_hours_36036s py_round_36036s float_sub_36036s py_round_over_36036s
      OVERDUE_THRESHOLD_HOURS_def del: py_round.simps float_sub.simps)

text \<open>
  Claim C1, amended.  For an order with a start time the call raises nothing, and with
  \<open>td\<close> the difference between the clock and the start time (each normalised):
  \<open>is_overdue\<close> says whether the unrounded elapsed time is at least 9 hours;
  \<open>hours_elapsed\<close> is the elapsed hours rounded to 2 decimals; \<open>overdue_by_hours\<close>
  is the elapsed hours minus 9, rounded to 2 decimals, when the order is overdue and
  \<open>0.0\<close> otherwise.  An overdue order has \<open>hours_elapsed >= 9\<close> (the converse
  fails), \<open>overdue_by_hours\<close> is never negative, and for an overdue order the two
  float fields are the floats nearest to two decimal numbers \<open>k/100\<close> and
  \<open>k/100 - 9\<close> (for every difference below \<open>2^62\<close> microseconds, which covers any
  two datetimes).  Ten hours elapsed give \<open>hours_elapsed = 10.0\<close> and
  \<open>overdue_by_hours = 1.0\<close>.
\<close>

theorem overdue_status_fields:
  assumes "started_at order = Some s"
  shows "\<exists>td r. dt_sub (utcoffset env) (aware env (timezone_now env)) (aware env s) = Inr td
      \<and> snd (get_order_overdue_status env order) = Inr r
      \<and> is_overdue r = (9 \<le> (of_int td :: rat) / of_int us_per_hour)
      \<and> hours_elapsed r = py_round (elapsed_hours td) 2
      \<and> overdue_by_hours r =
          (if is_overdue r then py_round (float_sub (elapsed_hours td) 9) 2 else Finite 0)
      \<and> (is_overdue r \<longrightarrow> float_ge (hours_elapsed r) 9)
      \<and> float_ge (overdue_by_hours r) 0
      \<and> (is_overdue r \<and> td < 2 ^ 62 \<longrightarrow>
            (\<exists>k. hours_elapsed r = fl (of_int k / 100)
                 \<and> overdue_by_hours r = fl (of_int (k - 900) / 100)))
      \<and> (td = 10 * us_per_hour \<longrightarrow>
            is_overdue r \<and> hours_elapsed r = Finite 10 \<and> overdue_by_hours r = Finite 1)"
proof -
  obtain td where td: "dt_sub (utcoffset env) (aware env (timezone_now env)) (aware env s) = Inr td"
    using dt_sub_aware by blast
  define r where "r = \<lparr>is_overdue = (9 * us_per_hour \<le> td),
               hours_elapsed = py_round (elapsed_hours td) 2,
               overdue_by_hours =
                 (if 9 * us_per_hour \<le> td then py_round (float_sub (elapsed_hours td) 9) 2
                  else Finite 0)\<rparr>"
  have res: "snd (get_order_overdue_status env order) = Inr r"
    unfolding r_def using assms td by (rule status_Some)
  have 1: "is_overdue r = (9 \<le> (of_int td :: rat) / of_int us_per_hour)"
    by (simp add: r_def nine_hours_iff)
  have 2: "hours_elapsed r = py_round (elapsed_hours td) 2" by (simp add: r_def)
  have 3: "overdue_by_hours r =
          (if is_overdue r then py_round (float_sub (elapsed_hours td) 9) 2 else Finite 0)"
    by (simp add: r_def)
  have 4: "is_overdue r \<longrightarrow> float_ge (hours_elapsed r) 9"
    by (simp add: r_def rounded_ge_9)
  have 5: "float_ge (overdue_by_hours r) 0"
    by (simp add: r_def overdue_by_ge_0)
  have 6: "td = 10 * us_per_hour \<longrightarrow>
            is_overdue r \<and> hours_elapsed r = Finite 10 \<and> overdue_by_hours r = Finite 1"
    using us_per_hour_nonneg
    by (simp add: r_def elapsed_hours_10h py_round_10 float_sub_10_9 py_round_1
        del: py_round.simps float_sub.simps)
  have 7: "is_overdue r \<and> td < 2 ^ 62 \<longrightarrow>
            (\<exists>k. hours_elapsed r = fl (of_int k / 100)
                 \<and> overdue_by_hours r = fl (of_int (k - 900) / 100))"
    using overdue_fields_decimal [of td] by (simp add: r_def del: py_round.simps)
  from td res 1 2 3 4 5 6 7 show ?thesis by blast
qed

text \<open>
  The hypotheses of C1 hold for the order that started ten hours before the clock of
  the example environment.
\<close>

theorem overdue_status_fields_witness:
  "started_at (order_started (10 * us_per_hour))
     = Some \<lparr>ticks = ticks (timezone_now example_env) - 10 * us_per_hour, tzinfo = Some UTC\<rparr>
   \<and> snd (get_order_overdue_status example_env (order_started (10 * us_per_hour)))
       = Inr \<lparr>is_overdue = True, hours_elapsed = Finite 10, overdue_by_hours = Finite 1\<rparr>"
proof -
  let ?s = "\<lparr>ticks = ticks (timezone_now example_env) - 10 * us_per_hour, tzinfo = Some UTC\<rparr>"
  have h: "started_at (order_started (10 * us_per_hour)) = Some ?s"
    by (simp add: order_started_def)
  have d: "dt_sub (utcoffset example_env) (aware example_env (timezone_now example_env))
             (aware example_env ?s) = Inr (10 * us_per_hour)"
    by (simp add: dt_sub_def aware_def example_env_def at_2024_def)
  from overdue_status_fields [OF h, of example_env] obtain td r where
    td: "dt_sub (utcoffset example_env) (aware example_env (timezone_now example_env))
           (aware example_env ?s) = Inr td"
    and r: "snd (get_order_overdue_status example_env (order_started (10 * us_per_hour))) = Inr r"
    and f: "td = 10 * us_per_hour \<longrightarrow>
            is_overdue r \<and> hours_elapsed r = Finite 10 \<and> overdue_by_hours r = Finite 1"
    by blast
  from td d have "td = 10 * us_per_hour" by simp
  with f have "is_overdue r \<and> hours_elapsed r = Finite 10 \<and> overdue_by_hours r = Finite 1"
    by blast
  then have "r = \<lparr>is_overdue = True, hours_elapsed = Finite 10, overdue_by_hours = Finite 1\<rparr>"
    by (cases r) simp
  with h r show ?thesis by simp
qed

lemma rounded_future:
  assumes "td < 0"
  shows "float_le (py_round (elapsed_hours td) 2) (Finite 0)"
    and "float_lt (py_round (elapsed_hours td) 2) 0 = (td \<le> - 18000000)"
proof -
  have "td \<le> - 1" using assms by simp
  then have up: "float_le (py_round (elapsed_hours td) 2) (Finite 0)"
    using hours_rounded_mono [of td "- 1"] by (simp add: rounded_minus_1us)
  then show "float_le (py_round (elapsed_hours td) 2) (Finite 0)" .
  show "float_lt (py_round (elapsed_hours td) 2) 0 = (td \<le> - 18000000)"
  proof (cases "td \<le> - 18000000")
    case True
    then have "float_lt (py_round (elapsed_hours td) 2) 0"
      using hours_rounded_mono [of td "- 18000000"] rounded_minus_18s
      by (blast intro: float_lt_le_trans)
    with True show ?thesis by simp
  next
    case False
    then have "- 17999999 \<le> td" by simp
    then have "float_le (Finite 0) (py_round (elapsed_hours td) 2)"
      using hours_rounded_mono [of "- 17999999" td] by (simp add: rounded_minus_17s)
    then have "py_round (elapsed_hours td) 2 = Finite 0"
      using up by (rule float_le_antisym)
    with False show ?thesis by simp
  qed
qed

text \<open>
  Claim C9, as stated, fails: for a start one second in the future the elapsed hours
  round to zero (Python shows \<open>-0.0\<close>, which equals \<open>0.0\<close> and is not below it), so
  \<open>hours_elapsed\<close> is not negative.
\<close>

theorem future_start_can_give_zero_hours_elapsed:
  "ticks (timezone_now example_env) < ticks (the (started_at (order_started (- 1000000))))
   \<and> snd (get_order_overdue_status example_env (order_started (- 1000000)))
       = Inr \<lparr>is_overdue = False, hours_elapsed = Finite 0, overdue_by_hours = Finite 0\<rparr>
   \<and> \<not> float_lt (Finite 0) 0"
proof -
  have "py_round (elapsed_hours (- 1000000)) 2 = Finite 0"
    using rounded_future [of "- 1000000"]
    by (cases "py_round (elapsed_hours (- 1000000)) 2") simp_all
  then show ?thesis
    by (simp add: status_example us_per_hour_def) (simp add: order_started_def)
qed

text \<open>
  Claim C9, amended.  When \<open>started_at\<close> lies in the future of the clock (the
  difference \<open>td\<close> is negative), the status has \<open>is_overdue\<close> false and
  \<open>overdue_by_hours = 0.0\<close>, and \<open>hours_elapsed\<close> is the signed elapsed hours
  rounded to 2 decimals, not clamped: it is never positive, and it is negative exactly
  when the start is at least 18 seconds ahead.
\<close>

theorem future_start_status:
  assumes "started_at order = Some s"
    and "dt_sub (utcoffset env) (aware env (timezone_now env)) (aware env s) = Inr td"
    and "td < 0"
  shows "\<exists>r. snd (get_order_overdue_status env order) = Inr r
           \<and> is_overdue r = False
           \<and> overdue_by_hours r = Finite 0
           \<and> hours_elapsed r = py_round (elapsed_hours td) 2
           \<and> float_le (hours_elapsed r) (Finite 0)
           \<and> float_lt (hours_elapsed r) 0 = (td \<le> - 18000000)"
proof -
  have "\<not> 9 * us_per_hour \<le> td" using assms(3) by (simp add: us_per_hour_def)
  then show ?thesis
    using status_Some [OF assms(1,2)] rounded_future [OF assms(3)] by simp
qed

text \<open>The hypotheses of C9 hold for a start one hour in the future.\<close>

theorem future_start_status_witness:
  "started_at (order_started (- 3600000000))
     = Some \<lparr>ticks = ticks (timezone_now example_env) + 3600000000, tzinfo = Some UTC\<rparr>
   \<and> dt_sub (utcoffset example_env) (aware example_env (timezone_now example_env))
        (aware example_env
           \<lparr>ticks = ticks (timezone_now example_env) + 3600000000, tzinfo = Some UTC\<rparr>)
       = Inr (- 3600000000)
   \<and> (- 3600000000 :: int) < 0
   \<and> snd (get_order_overdue_status example_env (order_started (- 3600000000)))
       = Inr \<lparr>is_overdue = False, hours_elapsed = Finite (- 1), overdue_by_hours = Finite 0\<rparr>"
proof -
  let ?s = "\<lparr>ticks = ticks (timezone_now example_env) + 3600000000, tzinfo = Some UTC\<rparr>"
  have h: "started_at (order_started (- 3600000000)) = Some ?s"
    by (simp add: order_started_def)
  have d: "dt_sub (utcoffset example_env) (aware example_env (timezone_now example_env))
             (aware example_env ?s) = Inr (- 3600000000)"
    by (simp add: dt_sub_def aware_def example_env_def at_2024_def)
  have n: "(- 3600000000 :: int) < 0" by simp
  from future_start_status [OF h d n] obtain r where
    r: "snd (get_order_overdue_status example_env (order_started (- 3600000000))) = Inr r"
    and f: "is_overdue r = False" "overdue_by_hours r = Finite 0"
       "hours_elapsed r = py_round (elapsed_hours (- 3600000000)) 2"
    by blast
  from f have "r = \<lparr>is_overdue = False, hours_elapsed = Finite (- 1), overdue_by_hours = Finite 0\<rparr>"
    by (cases r) (simp add: elapsed_hours_minus_1h py_round_minus_1 del: py_round.simps)
  with h d r show ?thesis by simp
qed

section \<open>Formatting hours\<close>

lemma format_hours_negative: "float_lt hours 0 \<Longrightarrow> format_hours hours = Inr ''0h''"
  by (simp add: format_hours_def)

lemma format_hours_nonneg:
  assumes "0 \<le> r" and "fl (r * 60) = Finite p"
  shows "format_hours (Finite r) = Inr (render_hm (\<lfloor>p\<rfloor> div 60) (\<lfloor>p\<rfloor> mod 60))"
proof -
  have "p = fl_fin (r * 60)" using assms(2) by (simp add: fl_Finite_iff)
  then have "0 \<le> p" using assms(1) by (simp add: fl_fin_nonneg)
  then have "py_int (float_mul (Finite r) 60) = Inr \<lfloor>p\<rfloor>"
    using assms(2) by (simp add: truncate_rat_def)
  then show ?thesis
    using assms(1) by (auto simp: format_hours_def render_hm_def Let_def)
qed

lemma fl_90: "fl (3 / 2 * 60) = Finite 90"
  by (rule fl_FiniteI) (simp_all add: fl_eval max_double_def)

lemma fl_15: "fl (1 / 4 * 60) = Finite 15"
  by (rule fl_FiniteI) (simp_all add: fl_eval max_double_def)

lemma fl_0: "fl (0 * 60) = Finite 0"
  by (rule fl_FiniteI) (simp_all add: fl_eval max_double_def)

lemma format_hours_examples:
  "format_hours (Finite 0) = Inr ''0h''"
  "format_hours (Finite (3 / 2)) = Inr ''1h 30m''"
  "format_hours (Finite (- 1)) = Inr ''0h''"
  "format_hours (Finite (1 / 4)) = Inr ''15m''"
proof -
  show "format_hours (Finite 0) = Inr ''0h''"
    using format_hours_nonneg [OF _ fl_0] by (simp add: render_hm_def)
  show "format_hours (Finite (3 / 2)) = Inr ''1h 30m''"
    using format_hours_nonneg [OF _ fl_90]
    by (simp add: render_hm_def str_int_def str_nat.simps digit_char_def)
  show "format_hours (Finite (- 1)) = Inr ''0h''"
    by (simp add: format_hours_negative)
  show "format_hours (Finite (1 / 4)) = Inr ''15m''"
    using format_hours_nonneg [OF _ fl_15]
    by (simp add: render_hm_def str_int_def str_nat.simps digit_char_def)
qed

lemma fl_huge_minutes: "fl (2 ^ 1023 * 60) = PInf"
  by (rule fl_PInfI) (simp add: fl_eval max_double_def)

text \<open>
  Claim C4, as stated, fails: not every float is rendered.  For positive infinity, for
  a NaN and for a finite float so large that \<open>hours * 60\<close> overflows (here
  \<open>2^1023\<close>), \<open>int(hours * 60)\<close> raises and no string is returned.
\<close>

theorem format_hours_raises_on_infinity:
  "format_hours PInf = Inl OverflowError
   \<and> format_hours NaN = Inl ValueError
   \<and> format_hours (Finite (2 ^ 1023)) = Inl OverflowError"
  using fl_huge_minutes by (simp add: format_hours_def del: power_numeral)

text \<open>
  Claim C4, amended.  A negative input (negative infinity included) yields \<open>"0h"\<close>.
  A finite input that is not negative and whose float product \<open>hours * 60\<close> is finite
  is rendered from the whole minutes of that product, truncated: with \<open>X\<close> the hours
  part and \<open>Y < 60\<close> the minutes part, the result is exactly one of \<open>"Xh Ym"\<close>,
  \<open>"Xh"\<close>, \<open>"Ym"\<close> and \<open>"0h"\<close>, depending on which parts are zero.  In particular
  \<open>format_hours(0) = "0h"\<close>, \<open>format_hours(1.5) = "1h 30m"\<close>,
  \<open>format_hours(-1) = "0h"\<close> and \<open>format_hours(0.25) = "15m"\<close>.
\<close>

theorem format_hours_renders:
  "(float_lt hours 0 \<longrightarrow> format_hours hours = Inr ''0h'')
   \<and> (0 \<le> r \<and> fl (r * 60) = Finite p \<longrightarrow>
        (\<exists>X Y. 0 \<le> X \<and> 0 \<le> Y \<and> Y < 60 \<and> \<lfloor>p\<rfloor> = 60 * X + Y
               \<and> format_hours (Finite r) = Inr (render_hm X Y)))
   \<and> format_hours (Finite 0) = Inr ''0h''
   \<and> format_hours (Finite (3 / 2)) = Inr ''1h 30m''
   \<and> format_hours (Finite (- 1)) = Inr ''0h''
   \<and> format_hours (Finite (1 / 4)) = Inr ''15m''"
proof (intro conjI impI)
  assume "float_lt hours 0"
  then show "format_hours hours = Inr ''0h''" by (rule format_hours_negative)
next
  assume a: "0 \<le> r \<and> fl (r * 60) = Finite p"
  then have "p = fl_fin (r * 60)" by (simp add: fl_Finite_iff)
  with a have p: "0 \<le> \<lfloor>p\<rfloor>" by (simp add: fl_fin_nonneg)
  let ?X = "\<lfloor>p\<rfloor> div 60" and ?Y = "\<lfloor>p\<rfloor> mod 60"
  have "0 \<le> ?X" using p by (simp add: pos_imp_zdiv_nonneg_iff)
  moreover have "0 \<le> ?Y" "?Y < 60" by simp_all
  moreover have "\<lfloor>p\<rfloor> = 60 * ?X + ?Y" by simp
  moreover have "format_hours (Finite r) = Inr (render_hm ?X ?Y)"
    using a by (simp add: format_hours_nonneg)
  ultimately show "\<exists>X Y. 0 \<le> X \<and> 0 \<le> Y \<and> Y < 60 \<and> \<lfloor>p\<rfloor> = 60 * X + Y
               \<and> format_hours (Finite r) = Inr (render_hm X Y)"
    by blast
qed (simp_all add: format_hours_examples)

text \<open>The hypotheses of C4 hold for \<open>-1.0\<close> and for \<open>1.5\<close>.\<close>

theorem format_hours_renders_witness:
  "float_lt (Finite (- 1)) 0 \<and> format_hours (Finite (- 1)) = Inr ''0h''
   \<and> (0::rat) \<le> 3 / 2 \<and> fl (3 / 2 * 60) = Finite 90
   \<and> (\<exists>X Y. 0 \<le> X \<and> 0 \<le> Y \<and> Y < 60 \<and> \<lfloor>90 :: rat\<rfloor> = 60 * X + Y
             \<and> format_hours (Finite (3 / 2)) = Inr (render_hm X Y))"
proof -
  have h1: "float_lt (Finite (- 1)) 0" by simp
  have h2: "(0::rat) \<le> 3 / 2 \<and> fl (3 / 2 * 60) = Finite 90" using fl_90 by simp
  from format_hours_renders [of "Finite (- 1)" "3 / 2" 90] h1 h2
  show ?thesis by blast
qed

section \<open>The completion estimate\<close>

subsection \<open>Whole minutes are converted exactly\<close>

lemma truncate_rat_minus: "truncate_rat (- r) = - truncate_rat r"
  by (simp add: truncate_rat_def ceiling_def)

lemma truncate_rat_of_int [simp]: "truncate_rat (of_int i) = i"
  by (simp add: truncate_rat_def)

lemma truncate_rat_bounds:
  "\<bar>r - of_int (truncate_rat r)\<bar> < 1"
  by (simp add: truncate_rat_def) linarith

lemma c_round_minus: "c_round (- x) = - c_round x"
  by (cases "x = 0") (auto simp: c_round_def)

lemma c_round_small: "0 \<le> l \<Longrightarrow> l < 1 / 2 \<Longrightarrow> c_round l = 0"
  by (simp add: c_round_def floor_eq_iff)

lemma c_round_large: "1 / 2 < l \<Longrightarrow> l < 1 \<Longrightarrow> c_round l = 1"
  by (simp add: c_round_def floor_eq_iff)

lemma round_parts:
  assumes d: "0 \<le> d" and near: "\<bar>d - of_int N\<bar> < 1 / 2"
  shows "truncate_rat d + c_round (d - of_int (truncate_rat d)) = N
    \<and> \<bar>of_int (c_round (d - of_int (truncate_rat d))) - (d - of_int (truncate_rat d))\<bar> \<noteq> 1 / 2"
proof -
  have t: "truncate_rat d = \<lfloor>d\<rfloor>" using d by (simp add: truncate_rat_def)
  consider "of_int N \<le> d" | "d < of_int N" by linarith
  then show ?thesis
  proof cases
    case 1
    have f: "\<lfloor>d\<rfloor> = N"
    proof (rule floor_unique)
      show "of_int N \<le> d" by (rule 1)
      show "d < of_int N + 1" using near by linarith
    qed
    have l: "0 \<le> d - of_int N" "d - of_int N < 1 / 2" using 1 near by linarith+
    then have c: "c_round (d - of_int N) = 0" by (rule c_round_small)
    show ?thesis using l by (simp add: t f c)
  next
    case 2
    have f: "\<lfloor>d\<rfloor> = N - 1"
    proof (rule floor_unique)
      have "of_int N - 1 \<le> d" using near by linarith
      then show "of_int (N - 1) \<le> d" by simp
      show "d < of_int (N - 1) + 1" using 2 by simp
    qed
    define l where "l = d - of_int (N - 1)"
    have "1 / 2 < d - of_int N + 1" "d - of_int N + 1 < 1" using 2 near by linarith+
    then have l: "1 / 2 < l" "l < 1" by (simp_all add: l_def)
    then have c: "c_round l = 1" by (rule c_round_large)
    have n: "\<bar>1 - l\<bar> \<noteq> 1 / 2" using l by linarith
    have tr: "truncate_rat d = N - 1" by (simp add: t f)
    have ld: "d - of_int (truncate_rat d) = l" by (simp only: tr l_def)
    show ?thesis unfolding ld using n by (simp add: tr c)
  qed
qed

lemma c_round_tie_half:
  assumes "0 \<le> l" and "l < 1" and "\<bar>of_int (c_round l) - l\<bar> = 1 / 2"
  shows "l = 1 / 2"
proof (rule ccontr)
  assume n: "l \<noteq> 1 / 2"
  consider "l < 1 / 2" | "1 / 2 < l" using n by linarith
  then show False
  proof cases
    case 1
    then have "c_round l = 0" using assms(1) by (intro c_round_small)
    with assms(3) 1 assms(1) show False by simp
  next
    case 2
    then have "c_round l = 1" using assms(2) by (intro c_round_large)
    with assms(3) 2 assms(2) show False by simp
  qed
qed

lemma c_round_tie_sum:
  assumes "l = 1 / 2 \<or> l = - (1 / 2)" and "z = 0 \<or> z = 1"
  shows "c_round ((- l + of_int z) * (1 / 2)) + c_round ((l + of_int z) * (1 / 2)) = z"
  using assms by (elim disjE; clarify; simp add: c_round_def)

lemma c_round_tie_minus:
  "\<bar>of_int (c_round (- l)) - (- l)\<bar> = \<bar>of_int (c_round l) - l\<bar>"
proof -
  have "of_int (c_round (- l)) - (- l) = - (of_int (c_round l) - l)"
    by (simp add: c_round_minus)
  then show ?thesis by (simp only: abs_minus)
qed

lemma hours_to_us_eq:
  assumes "truncate_rat r = i"
    and "fl_fin (of_int us_per_hour * (r - of_int i)) = d"
    and "\<bar>of_int (c_round (d - of_int (truncate_rat d))) - (d - of_int (truncate_rat d))\<bar> \<noteq> 1 / 2"
  shows "hours_to_us r = i * us_per_hour + (truncate_rat d + c_round (d - of_int (truncate_rat d)))"
  using assms by (simp add: hours_to_us_def round_leftover_def Let_def)

lemma hours_to_us_of_int: "hours_to_us (of_int q) = q * us_per_hour"
  using hours_to_us_eq [of "of_int q" q 0] by (simp add: c_round_def)

lemma hours_to_us_minutes_nonneg:
  assumes m0: "0 \<le> m" and m1: "m < 125829120"
  shows "hours_to_us (fl_fin (of_int m / 60)) = m * 60000000"
proof -
  define q where "q = m div 60"
  define r where "r = m mod 60"
  have m: "m = 60 * q + r" by (simp add: q_def r_def)
  have r: "0 \<le> r" "r < 60" by (simp_all add: r_def)
  have q: "0 \<le> q" "q < 2097152" using m0 m1 by (simp_all add: q_def)
  show ?thesis
  proof (cases "r = 0")
    case True
    then have "(of_int m :: rat) / 60 = of_int q" by (simp add: m)
    moreover have "fl_fin (of_int q) = of_int q"
      by (rule fl_fin_of_int) (use q in simp)
    ultimately show ?thesis using True
      by (simp add: hours_to_us_of_int m us_per_hour_def)
  next
    case False
    with r have r1: "1 \<le> r" "r \<le> 59" by simp_all
    define x :: rat where "x = of_int m / 60"
    define h where "h = fl_fin x"
    have xq: "x = of_int q + of_int r / 60" by (simp add: x_def m add_divide_distrib)
    have rr: "(1::rat) \<le> of_int r" "(of_int r :: rat) \<le> 59" using r1 by simp_all
    have qq: "(0::rat) \<le> of_int q" "(of_int q :: rat) \<le> 2097151" using q by simp_all
    have x0: "0 < x" unfolding xq using rr qq by linarith
    have "x < 2097152" unfolding xq using rr qq by linarith
    then have x1: "x < 2 powi 21" by simp
    have "\<bar>h - x\<bar> \<le> 2 powi (21 - 54)"
      unfolding h_def by (rule fl_fin_error_below [OF x0 x1]) simp
    then have err: "\<bar>h - x\<bar> \<le> 1 / 8589934592" by simp
    have hq: "of_int q < h" "h < of_int q + 1" using err rr unfolding xq by linarith+
    then have "\<lfloor>h\<rfloor> = q" by (intro floor_unique) simp_all
    moreover have "0 \<le> h" using hq qq by linarith
    ultimately have tr: "truncate_rat h = q" by (simp add: truncate_rat_def)
    define frac where "frac = h - of_int q"
    define p :: rat where "p = of_int us_per_hour * frac"
    define N where "N = r * 60000000"
    define dnum where "dnum = fl_fin p"
    have "frac - of_int r / 60 = h - x" by (simp add: frac_def xq)
    with err have fe: "\<bar>frac - of_int r / 60\<bar> \<le> 1 / 8589934592" by simp
    have f0: "0 < frac" "frac < 1" using hq by (simp_all add: frac_def)
    have pN: "p - of_int N = 3600000000 * (frac - of_int r / 60)"
      by (simp add: p_def N_def us_per_hour_def algebra_simps)
    have "\<bar>p - of_int N\<bar> = 3600000000 * \<bar>frac - of_int r / 60\<bar>"
      by (simp only: pN abs_mult abs_numeral)
    also have "\<dots> \<le> 3600000000 * (1 / 8589934592)"
      using fe by (intro mult_left_mono) simp_all
    finally have pe: "\<bar>p - of_int N\<bar> \<le> 21 / 50" by simp
    have p0: "0 < p" using f0 by (simp add: p_def us_per_hour_def)
    have "p < 3600000000" using f0 by (simp add: p_def us_per_hour_def)
    then have p1: "p < 2 powi 32" by simp
    have "\<bar>dnum - p\<bar> \<le> 2 powi (32 - 54)"
      unfolding dnum_def by (rule fl_fin_error_below [OF p0 p1]) simp
    then have de: "\<bar>dnum - p\<bar> \<le> 1 / 4194304" by simp
    have near: "\<bar>dnum - of_int N\<bar> < 1 / 2" using pe de by linarith
    have d0: "0 \<le> dnum" unfolding dnum_def using p0 by (intro fl_fin_nonneg) simp
    note rp = round_parts [OF d0 near]
    have dn: "fl_fin (of_int us_per_hour * (h - of_int q)) = dnum"
      by (simp add: dnum_def p_def frac_def)
    have "hours_to_us h = q * us_per_hour + N"
      using hours_to_us_eq [OF tr dn] rp by simp
    then show ?thesis
      by (simp add: h_def x_def N_def m us_per_hour_def)
  qed
qed

lemma round_leftover_minus:
  assumes "\<bar>l\<bar> < 1"
  shows "round_leftover (- x) (- l) = - round_leftover x l"
proof (cases "\<bar>of_int (c_round l) - l\<bar> = 1 / 2")
  case False
  then have F': "\<bar>of_int (c_round (- l)) - (- l)\<bar> \<noteq> 1 / 2"
    by (simp only: c_round_tie_minus not_False_eq_True)
  have a: "round_leftover x l = x + c_round l"
    using False by (simp add: round_leftover_def Let_def)
  have b: "round_leftover (- x) (- l) = - x + c_round (- l)"
    using F' by (simp only: round_leftover_def Let_def if_False)
  show ?thesis unfolding a b by (simp add: c_round_minus)
next
  case True
  then have T': "\<bar>of_int (c_round (- l)) - (- l)\<bar> = 1 / 2"
    by (simp only: c_round_tie_minus)
  have l1: "l < 1" and l2: "- l < 1" using assms by linarith+
  have l: "l = 1 / 2 \<or> l = - (1 / 2)"
  proof (cases "0 \<le> l")
    case True
    from True l1 \<open>\<bar>of_int (c_round l) - l\<bar> = 1 / 2\<close> have "l = 1 / 2"
      by (rule c_round_tie_half)
    then show ?thesis by (rule disjI1)
  next
    case False
    then have "0 \<le> - l" by linarith
    from this l2 T' have "- l = 1 / 2"
      by (rule c_round_tie_half)
    then have "l = - (1 / 2)" by linarith
    then show ?thesis by (rule disjI2)
  qed
  define z where "z = x mod 2"
  have z: "z = 0 \<or> z = 1" unfolding z_def by presburger
  have zm: "(- x) mod 2 = z" unfolding z_def by presburger
  from l z have s: "c_round ((- l + of_int z) * (1 / 2)) + c_round ((l + of_int z) * (1 / 2)) = z"
    by (rule c_round_tie_sum)
  have a: "round_leftover x l = x + (2 * c_round ((l + of_int z) * (1 / 2)) - z)"
    using True by (simp add: round_leftover_def Let_def z_def)
  have b: "round_leftover (- x) (- l) = - x + (2 * c_round ((- l + of_int z) * (1 / 2)) - z)"
    unfolding round_leftover_def Let_def zm T' by simp
  show ?thesis unfolding a b using s by linarith
qed

lemma hours_to_us_minus: "hours_to_us (- r) = - hours_to_us r"
proof -
  define i where "i = truncate_rat r"
  define d where "d = fl_fin (of_int us_per_hour * (r - of_int i))"
  define t where "t = truncate_rat d"
  have "of_int us_per_hour * (- r - of_int (- i)) = - (of_int us_per_hour * (r - of_int i) :: rat)"
    by (simp add: algebra_simps)
  then have d': "fl_fin (of_int us_per_hour * (- r - of_int (- i))) = - d"
    by (simp only: fl_fin_minus d_def)
  have pos: "hours_to_us r = round_leftover (i * us_per_hour + t) (d - of_int t)"
    by (simp only: hours_to_us_def Let_def i_def d_def t_def)
  have "hours_to_us (- r) =
      round_leftover (- i * us_per_hour + truncate_rat (- d)) (- d - of_int (truncate_rat (- d)))"
    by (simp only: hours_to_us_def Let_def truncate_rat_minus i_def [symmetric] d')
  also have "\<dots> = round_leftover (- (i * us_per_hour + t)) (- (d - of_int t))"
    by (simp add: truncate_rat_minus t_def)
  also have "\<dots> = - round_leftover (i * us_per_hour + t) (d - of_int t)"
    by (rule round_leftover_minus) (simp only: t_def truncate_rat_bounds)
  finally show ?thesis by (simp only: pos)
qed

lemma hours_to_us_minutes:
  assumes "\<bar>m\<bar> < 125829120"
  shows "hours_to_us (fl_fin (of_int m / 60)) = m * 60000000"
proof (cases "0 \<le> m")
  case True
  then show ?thesis using assms by (intro hours_to_us_minutes_nonneg) simp_all
next
  case False
  have "hours_to_us (fl_fin (of_int (- m) / 60)) = (- m) * 60000000"
    using False assms by (intro hours_to_us_minutes_nonneg) linarith+
  then show ?thesis by (simp add: fl_fin_minus hours_to_us_minus)
qed

subsection \<open>The result of \<open>estimate_completion_time\<close>\<close>

lemma float_of_int_small:
  assumes "\<bar>m\<bar> < 2 ^ 53"
  shows "float_of_int m = Inr (Finite (of_int m))"
proof -
  have "\<bar>of_int m :: rat\<bar> < of_int (2 ^ 53)"
    using assms by (simp only: of_int_abs [symmetric] of_int_less_iff)
  then have "\<bar>of_int m :: rat\<bar> < 2 ^ 53" by simp
  with max_double_ge_2_53 have "- max_double \<le> of_int m" "of_int m \<le> max_double"
    by linarith+
  then have "fl (of_int m) = Finite (of_int m)"
    using fl_fin_of_int [OF assms] by (intro fl_FiniteI) simp_all
  then show ?thesis by (simp add: float_of_int_def)
qed

lemma fl_fin_minutes_bounds:
  assumes "\<bar>m\<bar> < 125829120"
  shows "- 2097152 \<le> fl_fin (of_int m / 60)" and "fl_fin (of_int m / 60) \<le> 2097152"
proof -
  have "\<bar>of_int m :: rat\<bar> < of_int 125829120"
    using assms by (simp only: of_int_abs [symmetric] of_int_less_iff)
  then have b: "- 2097152 \<le> (of_int m :: rat) / 60" "(of_int m :: rat) / 60 \<le> 2097152"
    by simp_all
  have e: "fl_fin (of_int 2097152) = of_int 2097152" by (rule fl_fin_of_int) simp
  have "fl_fin (of_int m / 60) \<le> fl_fin (of_int 2097152)"
    by (rule fl_fin_mono) (use b in simp)
  then show "fl_fin (of_int m / 60) \<le> 2097152" using e by simp
  have "fl_fin (- of_int 2097152) \<le> fl_fin (of_int m / 60)"
    by (rule fl_fin_mono) (use b in simp)
  then show "- 2097152 \<le> fl_fin (of_int m / 60)" using e by (simp add: fl_fin_minus)
qed

lemma fl_minutes:
  assumes "\<bar>m\<bar> < 125829120"
  shows "fl (of_int m / 60) = Finite (fl_fin (of_int m / 60))"
proof -
  have "(2097152::rat) \<le> max_double" by (simp add: max_double_def)
  with fl_fin_minutes_bounds [OF assms]
  have "- max_double \<le> fl_fin (of_int m / 60)" "fl_fin (of_int m / 60) \<le> max_double"
    by linarith+
  then show ?thesis by (simp add: fl_FiniteI)
qed

lemma timedelta_hours_minutes:
  assumes "\<bar>m\<bar> < 125829120"
  shows "timedelta_hours (Finite (fl_fin (of_int m / 60))) = Inr (m * 60000000)"
proof -
  have "m * 60000000 \<le> 7549747200000000" "- 7549747200000000 \<le> m * 60000000"
    using assms by simp_all
  then have "m * 60000000 div us_per_day \<le> 7549747200000000 div us_per_day"
    and "(- 7549747200000000) div us_per_day \<le> m * 60000000 div us_per_day"
    by (simp_all add: zdiv_mono1 us_per_day_def)
  then have "\<bar>m * 60000000 div us_per_day\<bar> \<le> 999999999"
    by (simp add: us_per_day_def)
  then show ?thesis
    by (simp add: timedelta_hours_def hours_to_us_minutes [OF assms])
qed

lemma format_hours_minutes:
  assumes "\<bar>m\<bar> < 125829120"
  shows "\<exists>f. format_hours (Finite (fl_fin (of_int m / 60))) = Inr f"
proof (cases "fl_fin (of_int m / 60) < 0")
  case True
  then show ?thesis by (simp add: format_hours_negative)
next
  case False
  define h where "h = fl_fin (of_int m / 60)"
  have h: "0 \<le> h" "h \<le> 2097152"
    using False fl_fin_minutes_bounds [OF assms] by (simp_all add: h_def)
  have e: "fl_fin (of_int 125829120) = of_int 125829120" by (rule fl_fin_of_int) simp
  have "fl_fin (h * 60) \<le> fl_fin (of_int 125829120)"
    by (rule fl_fin_mono) (use h in simp)
  moreover have "0 \<le> fl_fin (h * 60)" using h by (intro fl_fin_nonneg) simp
  moreover have "(125829120::rat) \<le> max_double" by (simp add: max_double_def)
  ultimately have "fl (h * 60) = Finite (fl_fin (h * 60))"
    using e max_double_pos by (intro fl_FiniteI) simp_all
  then show ?thesis
    using format_hours_nonneg [OF h(1)] by (auto simp: h_def)
qed

lemma estimate_completion_time_minutes:
  assumes "\<bar>m\<bar> < 125829120" and "format_hours (Finite (fl_fin (of_int m / 60))) = Inr f"
  shows "estimate_completion_time (Some s) (Some m) =
           (if 0 \<le> ticks s + m * 60000000 \<and> ticks s + m * 60000000 < MAXTICKS
            then Inr (Some \<lparr>estimated_end = s\<lparr>ticks := ticks s + m * 60000000\<rparr>,
                           estimated_hours = Finite (fl_fin (of_int m / 60)),
                           formatted = f\<rparr>)
            else Inl OverflowError)"
proof -
  have "\<bar>m\<bar> < 2 ^ 53" using assms(1) by simp
  then show ?thesis
    using assms
    by (simp add: estimate_completion_time_def float_of_int_small fl_minutes
        timedelta_hours_minutes dt_add_def Let_def)
qed

lemma fl_540: "fl (9 * 60) = Finite 540"
  by (rule fl_FiniteI) (simp_all add: fl_eval max_double_def)

lemma format_hours_9: "format_hours (Finite 9) = Inr ''9h''"
  using format_hours_nonneg [OF _ fl_540]
  by (simp add: render_hm_def str_int_def str_nat.simps digit_char_def)

lemma estimate_completion_time_default:
  "estimate_completion_time (Some s) None =
     (if 0 \<le> ticks s + 9 * us_per_hour \<and> ticks s + 9 * us_per_hour < MAXTICKS
      then Inr (Some \<lparr>estimated_end = s\<lparr>ticks := ticks s + 9 * us_per_hour\<rparr>,
                     estimated_hours = Finite 9,
                     formatted = ''9h''\<rparr>)
      else Inl OverflowError)"
proof -
  have d: "estimate_completion_time (Some s) None = estimate_completion_time (Some s) (Some 540)"
    by (simp add: estimate_completion_time_def OVERDUE_THRESHOLD_HOURS_def)
  have e: "fl_fin (of_int 540 / 60) = 9" by (simp add: fl_fin_9)
  have f: "format_hours (Finite (fl_fin (of_int 540 / 60))) = Inr ''9h''"
    by (simp only: e format_hours_9)
  show ?thesis
    unfolding d using estimate_completion_time_minutes [OF _ f, of s]
    by (simp add: fl_fin_9 us_per_hour_def)
qed

lemma fl_fin_90_min: "fl_fin (of_int 90 / 60) = 3 / 2"
  by (simp add: fl_eval)

lemma fl_fin_big_minutes: "fl_fin (of_int 125829394 / 60) = 4503609434212489 / 2147483648"
  by (simp add: fl_eval)

lemma fl_big_minutes: "fl (of_int 125829394 / 60) = Finite (4503609434212489 / 2147483648)"
  by (rule fl_FiniteI [OF fl_fin_big_minutes]) (simp_all add: max_double_def)

lemma hours_to_us_big: "hours_to_us (4503609434212489 / 2147483648) = 7549763640000001"
proof -
  have t: "truncate_rat (4503609434212489 / 2147483648) = 2097156"
    by (simp add: truncate_rat_def)
  have d: "fl_fin (of_int us_per_hour * (4503609434212489 / 2147483648 - of_int 2097156))
           = 4278190081640625 / 2097152"
    by (simp add: us_per_hour_def fl_eval)
  have t2: "truncate_rat (4278190081640625 / 2097152) = 2040000000"
    by (simp add: truncate_rat_def)
  have c: "c_round (4278190081640625 / 2097152 - of_int 2040000000) = 1"
    by (simp add: c_round_def)
  have n: "\<bar>of_int (c_round (4278190081640625 / 2097152 - of_int (truncate_rat (4278190081640625 / 2097152))))
            - ((4278190081640625 / 2097152 :: rat) - of_int (truncate_rat (4278190081640625 / 2097152)))\<bar> \<noteq> 1 / 2"
    unfolding t2 c by simp
  show ?thesis
    unfolding hours_to_us_eq [OF t d n] t2 c by (simp add: us_per_hour_def)
qed

lemma timedelta_hours_big:
  "timedelta_hours (Finite (4503609434212489 / 2147483648)) = Inr 7549763640000001"
  by (simp add: timedelta_hours_def hours_to_us_big us_per_day_def)

lemma format_hours_big:
  "format_hours (Finite (4503609434212489 / 2147483648)) = Inr ''2097156h 34m''"
proof -
  have "fl_fin (4503609434212489 / 2147483648 * 60) = 8444267689148417 / 67108864"
    by (simp add: fl_eval)
  then have "fl (4503609434212489 / 2147483648 * 60) = Finite (8444267689148417 / 67108864)"
    by (rule fl_FiniteI) (simp_all add: max_double_def)
  from format_hours_nonneg [OF _ this] show ?thesis
    by (simp add: render_hm_def str_int_def str_nat.simps digit_char_def)
qed

text \<open>
  Claim C3, as stated, fails in two ways.  A dictionary is not returned for every start
  time: from 9999-12-31T20:00 the default estimate lies beyond the last datetime and
  the call raises \<open>OverflowError\<close>.  And the end is not always the start plus the
  given minutes: for 125829394 minutes the float quotient and its conversion to
  microseconds put \<open>estimated_end\<close> one microsecond later.
\<close>

theorem estimate_completion_time_overflow_and_drift:
  "valid_datetime last_evening
   \<and> estimate_completion_time (Some last_evening) None = Inl OverflowError
   \<and> estimate_completion_time (Some (at_2024 0 None)) (Some 125829394) =
       Inr (Some \<lparr>estimated_end =
                      \<lparr>ticks = ticks (at_2024 0 None) + 125829394 * 60000000 + 1, tzinfo = None\<rparr>,
                    estimated_hours = Finite (4503609434212489 / 2147483648),
                    formatted = ''2097156h 34m''\<rparr>)"
proof (intro conjI)
  show "valid_datetime last_evening"
    by (simp add: valid_datetime_def last_evening_def MAXTICKS_def us_per_day_def us_per_hour_def)
  show "estimate_completion_time (Some last_evening) None = Inl OverflowError"
    by (simp add: estimate_completion_time_default last_evening_def us_per_hour_def)
  have "\<bar>125829394 :: int\<bar> < 2 ^ 53" by simp
  then have "float_of_int 125829394 = Inr (Finite (of_int 125829394))"
    by (rule float_of_int_small)
  then show "estimate_completion_time (Some (at_2024 0 None)) (Some 125829394) =
       Inr (Some \<lparr>estimated_end =
                      \<lparr>ticks = ticks (at_2024 0 None) + 125829394 * 60000000 + 1, tzinfo = None\<rparr>,
                    estimated_hours = Finite (4503609434212489 / 2147483648),
                    formatted = ''2097156h 34m''\<rparr>)"
    using fl_big_minutes
    by (simp add: estimate_completion_time_def timedelta_hours_big format_hours_big dt_add_def
        at_2024_def MAXTICKS_def us_per_day_def us_per_hour_def)
qed

text \<open>
  Claim C3, amended.  For a present start time and fewer than 125829120 minutes
  (\<open>2^21\<close> hours) in either direction: when the start plus the minutes is a datetime
  (years 1 to 9999), the call returns the dictionary whose \<open>estimated_end\<close> is the
  start moved by exactly that many minutes, whose \<open>estimated_hours\<close> is the float
  quotient \<open>estimated_minutes / 60.0\<close> and whose \<open>formatted\<close> is \<open>format_hours\<close>
  of that float, which returns a string; otherwise it raises \<open>OverflowError\<close>.  With
  the default the same holds for 9 hours, with \<open>estimated_hours = 9.0\<close> and
  \<open>formatted = "9h"\<close>.
\<close>

theorem estimate_completion_time_result:
  assumes "\<bar>m\<bar> < 125829120"
  shows "(\<exists>f. format_hours (Finite (fl_fin (of_int m / 60))) = Inr f
            \<and> estimate_completion_time (Some s) (Some m) =
                (if 0 \<le> ticks s + m * 60000000 \<and> ticks s + m * 60000000 < MAXTICKS
                 then Inr (Some \<lparr>estimated_end = s\<lparr>ticks := ticks s + m * 60000000\<rparr>,
                                estimated_hours = Finite (fl_fin (of_int m / 60)),
                                formatted = f\<rparr>)
                 else Inl OverflowError))
         \<and> estimate_completion_time (Some s) None =
             (if 0 \<le> ticks s + 9 * us_per_hour \<and> ticks s + 9 * us_per_hour < MAXTICKS
              then Inr (Some \<lparr>estimated_end = s\<lparr>ticks := ticks s + 9 * us_per_hour\<rparr>,
                             estimated_hours = Finite 9,
                             formatted = ''9h''\<rparr>)
              else Inl OverflowError)"
  using format_hours_minutes [OF assms] estimate_completion_time_minutes [OF assms]
    estimate_completion_time_default by blast

text \<open>The hypothesis of C3 holds for 90 minutes from 2024-01-01T00:00 UTC.\<close>

theorem estimate_completion_time_result_witness:
  "\<bar>90 :: int\<bar> < 125829120
   \<and> estimate_completion_time (Some (at_2024 0 (Some UTC))) (Some 90) =
       Inr (Some \<lparr>estimated_end = at_2024 0 (Some UTC)\<lparr>ticks := ticks (at_2024 0 (Some UTC)) + 90 * 60000000\<rparr>,
                      estimated_hours = Finite (3 / 2),
                      formatted = ''1h 30m''\<rparr>)
   \<and> estimate_completion_time (Some (at_2024 0 (Some UTC))) None =
       Inr (Some \<lparr>estimated_end = at_2024 0 (Some UTC)\<lparr>ticks := ticks (at_2024 0 (Some UTC)) + 9 * us_per_hour\<rparr>,
                      estimated_hours = Finite 9,
                      formatted = ''9h''\<rparr>)"
proof -
  have h: "\<bar>90 :: int\<bar> < 125829120" by simp
  have r: "0 \<le> ticks (at_2024 0 (Some UTC)) + 90 * 60000000"
      "ticks (at_2024 0 (Some UTC)) + 90 * 60000000 < MAXTICKS"
      "0 \<le> ticks (at_2024 0 (Some UTC)) + 9 * us_per_hour"
      "ticks (at_2024 0 (Some UTC)) + 9 * us_per_hour < MAXTICKS"
    by (simp_all add: at_2024_def MAXTICKS_def us_per_day_def us_per_hour_def)
  from estimate_completion_time_result [OF h, of "at_2024 0 (Some UTC)"] r
  show ?thesis
    by (simp only: fl_fin_90_min format_hours_examples) simp
qed

text \<open>
  Claim C10.  \<open>estimate_completion_time\<close> does not normalise the time zone: the
  \<open>estimated_end\<close> it returns carries the tzinfo of \<open>started_at\<close>, naive for a
  naive start and aware for an aware one.  The two overdue functions do normalise: the
  start they compute with is never naive, and a start gives the same result as that
  start with the current time zone attached.
\<close>

theorem estimate_completion_time_keeps_tzinfo:
  "(estimate_completion_time (Some s) m = Inr (Some c)
      \<longrightarrow> tzinfo (estimated_end c) = tzinfo s \<and> is_naive (estimated_end c) = is_naive s)
   \<and> \<not> is_naive (aware env s)
   \<and> is_order_overdue env (Some s) now = is_order_overdue env (Some (aware env s)) now
   \<and> snd (get_order_overdue_status env (order\<lparr>started_at := Some s\<rparr>))
       = snd (get_order_overdue_status env (order\<lparr>started_at := Some (aware env s)\<rparr>))"
proof (intro conjI impI)
  assume r: "estimate_completion_time (Some s) m = Inr (Some c)"
  then obtain td f where "dt_add s td = Inr (estimated_end c)"
    by (auto simp: estimate_completion_time_def Let_def split: sum.splits)
  then have "estimated_end c = s\<lparr>ticks := ticks s + td\<rparr>"
    by (simp add: dt_add_def Let_def split: if_splits)
  then show t: "tzinfo (estimated_end c) = tzinfo s"
    by simp
  then show "is_naive (estimated_end c) = is_naive s"
    by (simp add: is_naive_def)
next
  show "\<not> is_naive (aware env s)"
    by (simp add: is_naive_def aware_def)
next
  have a: "aware env (aware env s) = aware env s"
    by (simp add: aware_def)
  show "is_order_overdue env (Some s) now = is_order_overdue env (Some (aware env s)) now"
    by (simp add: is_order_overdue_def make_aware_naive a)
  show "snd (get_order_overdue_status env (order\<lparr>started_at := Some s\<rparr>))
       = snd (get_order_overdue_status env (order\<lparr>started_at := Some (aware env s)\<rparr>))"
    by (simp add: get_order_overdue_status_Some a)
qed

text \<open>The hypothesis of C10 holds for the default estimate from a naive 2024-01-01T00:00.\<close>

theorem estimate_completion_time_keeps_tzinfo_witness:
  "estimate_completion_time (Some (at_2024 0 None)) None
     = Inr (Some \<lparr>estimated_end = at_2024 9 None, estimated_hours = Finite 9, formatted = ''9h''\<rparr>)
   \<and> tzinfo (estimated_end \<lparr>estimated_end = at_2024 9 None, estimated_hours = Finite 9,
                              formatted = ''9h''\<rparr>) = tzinfo (at_2024 0 None :: nat datetime)
   \<and> is_naive (estimated_end \<lparr>estimated_end = at_2024 9 None, estimated_hours = Finite 9,
                                formatted = ''9h''\<rparr>) = is_naive (at_2024 0 None :: nat datetime)"
proof -
  have e: "estimate_completion_time (Some (at_2024 0 None :: nat datetime)) None
     = Inr (Some \<lparr>estimated_end = at_2024 9 None, estimated_hours = Finite 9, formatted = ''9h''\<rparr>)"
    by (simp add: estimate_completion_time_default at_2024_def MAXTICKS_def us_per_day_def
        us_per_hour_def)
  from estimate_completion_time_keeps_tzinfo
         [of "at_2024 0 None :: nat datetime" None
             "\<lparr>estimated_end = at_2024 9 None, estimated_hours = Finite 9, formatted = ''9h''\<rparr>"] e
  show ?thesis by blast
qed

end
